theory Spec2Isabelle
  imports Complex_Main
begin

section \<open>The hybrid study-plan store (src/lib/study-plan-storage.ts)\<close>

text \<open>
  The class \<open>StudyPlanStorage\<close> keeps two JSON arrays in the browser's
  \<open>localStorage\<close>: the plans under \<open>STORAGE_KEY\<close> and the activity log under
  \<open>ACTIVITY_KEY\<close>. Every operation reads the whole array, changes it and writes it
  back; a remote mirror (\<open>SupabaseStorage\<close>, not part of the sources) is called after
  the local write and its failure is caught.

  Conventions of the embedding:
  \<^item> the program runs in a browser: \<open>window\<close> and \<open>localStorage\<close> exist and
    \<open>setItem\<close> does not fail;
  \<^item> a storage slot is absent, holds text that does not give an array (empty text,
    or text \<open>JSON.parse\<close> rejects), or holds the array that was serialised into it;
    \<open>JSON.parse (JSON.stringify xs)\<close> is \<open>xs\<close>;
  \<^item> a timestamp (\<open>new Date().toISOString()\<close>) is the instant it denotes, in
    milliseconds, as is \<open>Date.now()\<close>; the clock reading, the random suffix of an id
    and the outcome of a remote call are arguments of the operation that makes them;
  \<^item> strings are ASCII; a JavaScript number that is computed in floating point is
    \<open>NaN\<close>, an infinity or a double, and every arithmetic result is rounded to the
    nearest double, a tie going to the even one (IEEE 754 binary64); zero has no sign.
\<close>


subsection \<open>Data model\<close>

record DayPlan =
  isRestDay :: bool
  isSpecialDay :: bool

record FormData =
  form_concurso :: string
  form_cargo :: string
  horasLiquidas :: string
  disciplinasDificuldade :: "string list"
  plataformaEstudo :: string
  tempoEstudo :: string

text \<open>\<open>Omit<StoredStudyPlan, 'id' | 'createdAt' | 'updatedAt'>\<close>: the argument of
  \<open>savePlan\<close>.\<close>

record PlanData =
  title :: string
  concurso :: string
  cargo :: string
  totalDays :: int
  completedTasks :: "string list"
  plans :: "DayPlan list"
  formData :: FormData

record StoredStudyPlan = PlanData +
  plan_id :: string
  createdAt :: nat
  updatedAt :: nat

text \<open>\<open>Partial<StoredStudyPlan>\<close>: every field may be present (\<open>Some\<close>) or not.\<close>

record PlanUpdates =
  upd_id :: "string option"
  upd_title :: "string option"
  upd_concurso :: "string option"
  upd_cargo :: "string option"
  upd_createdAt :: "nat option"
  upd_updatedAt :: "nat option"
  upd_totalDays :: "int option"
  upd_completedTasks :: "string list option"
  upd_plans :: "DayPlan list option"
  upd_formData :: "FormData option"

datatype ActivityType = created | updated | completed_task

record Activity =
  activity_id :: string
  activity_type :: ActivityType
  planTitle :: string
  timestamp :: nat
  description :: string

text \<open>What one \<open>localStorage\<close> key holds.\<close>

datatype 'a slot = Absent | Corrupt string | Stored 'a

record store =
  plan_slot :: "StoredStudyPlan list slot"
  activity_slot :: "Activity list slot"

text \<open>The three readings an operation makes when it builds an id and a timestamp:
  \<open>Date.now()\<close>, \<open>Math.random().toString(36).substr(2, 9)\<close> and
  \<open>new Date()\<close>.\<close>

record stamp =
  date_now :: nat
  random_suffix :: string
  new_date :: nat

text \<open>The outcome of a call of the remote adapter (\<open>SupabaseStorage\<close>): the
  promise resolves with a value or it is rejected.\<close>

datatype 'a remote_result = Resolves 'a | Rejects

text \<open>A JavaScript number the program computes in floating point: \<open>NaN\<close>, one of
  the two infinities, or a finite value (a double). The sign of zero is left out: the
  program never divides by a number that can be zero and never compares zeros.\<close>

datatype number = NaN | PosInf | NegInf | Num real

record Stats =
  totalPlans :: nat
  activePlans :: nat
  totalHoursStudied :: number
  totalSubjects :: nat
  averageProgress :: number

subsection \<open>Strings\<close>

text \<open>A number in a template string: its decimal digits.\<close>

definition digit_char :: "nat \<Rightarrow> char" where
  "digit_char d = char_of (48 + d)"

fun decimal :: "nat \<Rightarrow> string" where
  "decimal n = (if n < 10 then [digit_char n] else decimal (n div 10) @ [digit_char (n mod 10)])"

declare decimal.simps [simp del]

definition quote :: char where
  "quote = CHR 0x22"

text \<open>\<open>`plan_${Date.now()}_${Math.random().toString(36).substr(2, 9)}`\<close>\<close>

definition new_plan_id :: "stamp \<Rightarrow> string" where
  "new_plan_id s = ''plan_'' @ decimal (date_now s) @ ''_'' @ random_suffix s"

text \<open>\<open>`activity_${Date.now()}_${Math.random().toString(36).substr(2, 9)}`\<close>\<close>

definition new_activity_id :: "stamp \<Rightarrow> string" where
  "new_activity_id s = ''activity_'' @ decimal (date_now s) @ ''_'' @ random_suffix s"

text \<open>White space as \<open>String.prototype.trim\<close> and \<open>parseInt\<close> skip it (the ASCII
  part): tab, line feed, vertical tab, form feed, carriage return, space.\<close>

definition isWhiteSpace :: "char \<Rightarrow> bool" where
  "isWhiteSpace c = (c \<in> set [CHR 0x09, CHR 0x0A, CHR 0x0B, CHR 0x0C, CHR 0x0D, CHR 0x20])"

definition trim :: "string \<Rightarrow> string" where
  "trim s = rev (dropWhile isWhiteSpace (rev (dropWhile isWhiteSpace s)))"

subsection \<open>Reading and writing the store\<close>

text \<open>\<open>getAllPlans\<close>: the stored array; \<open>[]\<close> when the key is absent, its text is
  empty or \<open>JSON.parse\<close> throws.\<close>

definition getAllPlans :: "store \<Rightarrow> StoredStudyPlan list" where
  "getAllPlans st = (case plan_slot st of Stored ps \<Rightarrow> ps | Absent \<Rightarrow> [] | Corrupt _ \<Rightarrow> [])"

text \<open>\<open>localStorage.setItem(STORAGE_KEY, JSON.stringify(plans))\<close>\<close>

definition setPlans :: "StoredStudyPlan list \<Rightarrow> store \<Rightarrow> store" where
  "setPlans ps st = st\<lparr>plan_slot := Stored ps\<rparr>"

text \<open>\<open>getActivityLog\<close>, with the same fallbacks.\<close>

definition getActivityLog :: "store \<Rightarrow> Activity list" where
  "getActivityLog st = (case activity_slot st of Stored as \<Rightarrow> as | Absent \<Rightarrow> [] | Corrupt _ \<Rightarrow> [])"

text \<open>\<open>logActivity\<close>: the new entry goes to the front (\<open>unshift\<close>), the first 50
  entries are kept (\<open>slice(0, 50)\<close>) and written back.\<close>

definition newActivity :: "ActivityType \<Rightarrow> string \<Rightarrow> string \<Rightarrow> stamp \<Rightarrow> Activity" where
  "newActivity ty ttl descr s =
     \<lparr>activity_id = new_activity_id s, activity_type = ty, planTitle = ttl,
      timestamp = new_date s, description = descr\<rparr>"

definition logActivity :: "ActivityType \<Rightarrow> string \<Rightarrow> string \<Rightarrow> stamp \<Rightarrow> store \<Rightarrow> store" where
  "logActivity ty ttl descr s st =
     (let activities = getActivityLog st;
          activities1 = newActivity ty ttl descr s # activities;
          trimmedActivities = take 50 activities1
      in st\<lparr>activity_slot := Stored trimmedActivities\<rparr>)"

text \<open>The three descriptions the facade logs.\<close>

definition created_description :: "string \<Rightarrow> string" where
  "created_description ttl = ''Plano '' @ [quote] @ ttl @ [quote] @ '' foi criado''"

definition updated_description :: "string \<Rightarrow> string" where
  "updated_description ttl = ''Plano '' @ [quote] @ ttl @ [quote] @ '' foi atualizado''"

definition completed_description :: "string \<Rightarrow> string" where
  "completed_description ttl = ''Tarefa completada no plano '' @ [quote] @ ttl @ [quote]"

subsection \<open>Creating a plan\<close>

text \<open>\<open>{...planData, id, createdAt: now, updatedAt: now}\<close>\<close>

definition newPlan :: "PlanData \<Rightarrow> stamp \<Rightarrow> StoredStudyPlan" where
  "newPlan planData s =
     \<lparr>title = title planData, concurso = concurso planData, cargo = cargo planData,
      totalDays = totalDays planData, completedTasks = completedTasks planData,
      plans = plans planData, formData = formData planData,
      plan_id = new_plan_id s, createdAt = new_date s, updatedAt = new_date s\<rparr>"

text \<open>\<open>savePlan\<close>: \<open>s\<close> holds the readings for the plan, \<open>a\<close> those for the
  activity entry, \<open>remote\<close> is the outcome of \<open>SupabaseStorage.savePlan\<close>, which
  is awaited inside \<open>try\<close>/\<open>catch\<close>: both outcomes reach \<open>return id\<close>.\<close>

definition savePlan ::
  "PlanData \<Rightarrow> stamp \<Rightarrow> stamp \<Rightarrow> unit remote_result \<Rightarrow> store \<Rightarrow> string \<times> store" where
  "savePlan planData s a remote st =
     (let plans0 = getAllPlans st;
          np = newPlan planData s;
          st1 = setPlans (plans0 @ [np]) st;
          st2 = logActivity created (title np) (created_description (title np)) a st1
      in case remote of
           Resolves _ \<Rightarrow> (plan_id np, st2)
         | Rejects \<Rightarrow> (plan_id np, st2))"

text \<open>\<open>savePlanSync\<close>: the remote call is started and not awaited; its rejection
  goes to \<open>.catch\<close>.\<close>

definition savePlanSync ::
  "PlanData \<Rightarrow> stamp \<Rightarrow> stamp \<Rightarrow> unit remote_result \<Rightarrow> store \<Rightarrow> string \<times> store" where
  "savePlanSync planData s a remote st =
     (let plans0 = getAllPlans st;
          np = newPlan planData s;
          st1 = setPlans (plans0 @ [np]) st;
          st2 = logActivity created (title np) (created_description (title np)) a st1
      in case remote of
           Resolves _ \<Rightarrow> (plan_id np, st2)
         | Rejects \<Rightarrow> (plan_id np, st2))"

subsection \<open>Loading and looking up\<close>

text \<open>\<open>loadFromSupabase\<close>: \<open>remote\<close> is the outcome of
  \<open>SupabaseStorage.loadPlans\<close>.\<close>

definition loadFromSupabase ::
  "StoredStudyPlan list remote_result \<Rightarrow> store \<Rightarrow> StoredStudyPlan list \<times> store" where
  "loadFromSupabase remote st =
     (case remote of
        Resolves supabasePlans \<Rightarrow>
          (if length supabasePlans > 0 then (supabasePlans, setPlans supabasePlans st)
           else (supabasePlans, st))
      | Rejects \<Rightarrow> (getAllPlans st, st))"

text \<open>\<open>getPlanById\<close>: \<open>plans.find(plan => plan.id === id) || null\<close>, with the store
  as the call leaves it.\<close>

definition getPlanById :: "string \<Rightarrow> store \<Rightarrow> StoredStudyPlan option \<times> store" where
  "getPlanById i st = (let ps = getAllPlans st in (find (\<lambda>plan. plan_id plan = i) ps, st))"

subsection \<open>Updating a plan\<close>

text \<open>\<open>Array.prototype.findIndex\<close>; \<open>None\<close> is its \<open>-1\<close>.\<close>

fun findIndex :: "('a \<Rightarrow> bool) \<Rightarrow> 'a list \<Rightarrow> nat option" where
  "findIndex P [] = None"
| "findIndex P (x # xs) = (if P x then Some 0 else map_option Suc (findIndex P xs))"

text \<open>A field of the spread \<open>{...plan, ...updates}\<close>: the update's value when it has
  one.\<close>

definition override :: "'a option \<Rightarrow> 'a \<Rightarrow> 'a" where
  "override u x = (case u of Some v \<Rightarrow> v | None \<Rightarrow> x)"

text \<open>\<open>{...plans[index], ...updates, updatedAt: new Date().toISOString()}\<close>\<close>

definition mergeUpdates :: "StoredStudyPlan \<Rightarrow> PlanUpdates \<Rightarrow> nat \<Rightarrow> StoredStudyPlan" where
  "mergeUpdates p u now =
     \<lparr>title = override (upd_title u) (title p),
      concurso = override (upd_concurso u) (concurso p),
      cargo = override (upd_cargo u) (cargo p),
      totalDays = override (upd_totalDays u) (totalDays p),
      completedTasks = override (upd_completedTasks u) (completedTasks p),
      plans = override (upd_plans u) (plans p),
      formData = override (upd_formData u) (formData p),
      plan_id = override (upd_id u) (plan_id p),
      createdAt = override (upd_createdAt u) (createdAt p),
      updatedAt = now\<rparr>"

text \<open>\<open>updatePlan\<close> (the asynchronous one). \<open>now\<close> is the reading for
  \<open>updatedAt\<close>, \<open>s1\<close> and \<open>s2\<close> are the readings of the two \<open>logActivity\<close>
  calls. The old count is read from \<open>plans[index]\<close> after \<open>plans[index] =
  updatedPlan\<close>.\<close>

definition updatePlan ::
  "string \<Rightarrow> PlanUpdates \<Rightarrow> nat \<Rightarrow> stamp \<Rightarrow> stamp \<Rightarrow> unit remote_result \<Rightarrow> store \<Rightarrow> bool \<times> store" where
  "updatePlan i updates now s1 s2 remote st =
     (let plans0 = getAllPlans st in
      case findIndex (\<lambda>plan. plan_id plan = i) plans0 of
        None \<Rightarrow> (False, st)
      | Some index \<Rightarrow>
          (let updatedPlan = mergeUpdates (plans0 ! index) updates now;
               plans1 = plans0[index := updatedPlan];
               st1 = setPlans plans1 st;
               st2 =
                 (case upd_completedTasks updates of
                    None \<Rightarrow> st1
                  | Some newTasks \<Rightarrow>
                      (let oldCompletedCount = length (completedTasks (plans1 ! index));
                           newCompletedCount = length newTasks;
                           st1a =
                             (if newCompletedCount > oldCompletedCount
                              then logActivity completed_task (title updatedPlan)
                                     (completed_description (title updatedPlan)) s1 st1
                              else st1)
                       in logActivity updated (title updatedPlan)
                            (updated_description (title updatedPlan)) s2 st1a))
           in case remote of
                Resolves _ \<Rightarrow> (True, st2)
              | Rejects \<Rightarrow> (True, st2)))"

text \<open>\<open>updatePlanSync\<close>: as above, but the old count is read from the copy
  \<open>oldPlan = { ...plans[index] }\<close> taken before the assignment.\<close>

definition updatePlanSync ::
  "string \<Rightarrow> PlanUpdates \<Rightarrow> nat \<Rightarrow> stamp \<Rightarrow> stamp \<Rightarrow> unit remote_result \<Rightarrow> store \<Rightarrow> bool \<times> store" where
  "updatePlanSync i updates now s1 s2 remote st =
     (let plans0 = getAllPlans st in
      case findIndex (\<lambda>plan. plan_id plan = i) plans0 of
        None \<Rightarrow> (False, st)
      | Some index \<Rightarrow>
          (let oldPlan = plans0 ! index;
               updatedPlan = mergeUpdates (plans0 ! index) updates now;
               plans1 = plans0[index := updatedPlan];
               st1 = setPlans plans1 st;
               st2 =
                 (case upd_completedTasks updates of
                    None \<Rightarrow> st1
                  | Some newTasks \<Rightarrow>
                      (let oldCompletedCount = length (completedTasks oldPlan);
                           newCompletedCount = length newTasks;
                           st1a =
                             (if newCompletedCount > oldCompletedCount
                              then logActivity completed_task (title updatedPlan)
                                     (completed_description (title updatedPlan)) s1 st1
                              else st1)
                       in logActivity updated (title updatedPlan)
                            (updated_description (title updatedPlan)) s2 st1a))
           in case remote of
                Resolves _ \<Rightarrow> (True, st2)
              | Rejects \<Rightarrow> (True, st2)))"

text \<open>The updates \<open>{ completedTasks }\<close>.\<close>

definition onlyCompletedTasks :: "string list \<Rightarrow> PlanUpdates" where
  "onlyCompletedTasks ts =
     \<lparr>upd_id = None, upd_title = None, upd_concurso = None, upd_cargo = None,
      upd_createdAt = None, upd_updatedAt = None, upd_totalDays = None,
      upd_completedTasks = Some ts, upd_plans = None, upd_formData = None\<rparr>"

text \<open>\<open>updateCompletedTasks\<close>: an empty \<open>planId\<close> is refused; after a successful
  \<open>updatePlanSync\<close> the plans are read and written once more.\<close>

definition updateCompletedTasks ::
  "string \<Rightarrow> string list \<Rightarrow> nat \<Rightarrow> stamp \<Rightarrow> stamp \<Rightarrow> unit remote_result \<Rightarrow> store \<Rightarrow> bool \<times> store" where
  "updateCompletedTasks planId ts now s1 s2 remote st =
     (if planId = [] then (False, st)
      else
        (let (success, st1) = updatePlanSync planId (onlyCompletedTasks ts) now s1 s2 remote st
         in if success then (success, setPlans (getAllPlans st1) st1) else (success, st1)))"

subsection \<open>Deleting a plan\<close>

text \<open>\<open>deleteFromLocalStorage\<close>: nothing is written unless the key holds an array
  with a plan of that id; then the array without the element at the index found
  (\<open>filter((_, index) => index !== planIndex)\<close>) is written.\<close>

definition deleteFromLocalStorage :: "string \<Rightarrow> store \<Rightarrow> bool \<times> store" where
  "deleteFromLocalStorage i st =
     (case plan_slot st of
        Absent \<Rightarrow> (False, st)
      | Corrupt _ \<Rightarrow> (False, st)
      | Stored currentPlans \<Rightarrow>
          (case findIndex (\<lambda>plan. plan_id plan = i) currentPlans of
             None \<Rightarrow> (False, st)
           | Some planIndex \<Rightarrow>
               (let filteredPlans =
                      map snd (filter (\<lambda>(index, _). index \<noteq> planIndex) (enumerate 0 currentPlans))
                in (True, setPlans filteredPlans st))))"

text \<open>\<open>deletePlan\<close>: \<open>!id || id.trim() === ''\<close> is refused; the remote delete is
  awaited inside \<open>try\<close>/\<open>catch\<close>.\<close>

definition deletePlan :: "string \<Rightarrow> unit remote_result \<Rightarrow> store \<Rightarrow> bool \<times> store" where
  "deletePlan i remote st =
     (if i = [] \<or> trim i = [] then (False, st)
      else
        (let cleanId = trim i;
             (localSuccess, st1) = deleteFromLocalStorage cleanId st
         in if \<not> localSuccess then (False, st1)
            else (case remote of
                    Resolves _ \<Rightarrow> (True, st1)
                  | Rejects \<Rightarrow> (True, st1))))"

subsection \<open>Statistics\<close>

text \<open>The number of binary digits of a natural number.\<close>

fun bit_length :: "nat \<Rightarrow> nat" where
  "bit_length n = (if n = 0 then 0 else Suc (bit_length (n div 2)))"

declare bit_length.simps [simp del]

text \<open>The binary exponent of a real other than 0: the \<open>e\<close> with
  \<open>2^e \<le> |x| < 2^(e+1)\<close>.\<close>

definition binade :: "real \<Rightarrow> int" where
  "binade x =
     (let a = \<bar>x\<bar> in
      if a \<ge> 1 then int (bit_length (nat \<lfloor>a\<rfloor>)) - 1
      else - int (bit_length (nat (\<lceil>1 / a\<rceil> - 1))))"

definition pow2 :: "int \<Rightarrow> real" where
  "pow2 e = (if e \<ge> 0 then 2 ^ nat e else 1 / 2 ^ nat (- e))"

text \<open>The nearest integer, a tie going to the even one.\<close>

definition round_half_even :: "real \<Rightarrow> int" where
  "round_half_even m =
     (let f = \<lfloor>m\<rfloor>; r = m - of_int f in
      if r < 1 / 2 then f else if r > 1 / 2 then f + 1 else if even f then f else f + 1)"

text \<open>The double nearest to a real, as every arithmetic operation of the program
  rounds its exact result: 53 significant bits, exponents from \<open>-1022\<close> (below it
  the spacing of the subnormal numbers, \<open>2^-1074\<close>), and an infinity from
  \<open>2^1024\<close> on.\<close>

definition round_double :: "real \<Rightarrow> number" where
  "round_double x =
     (if x = 0 then Num 0
      else
        (let e = max (binade x) (- 1022);
             ulp = pow2 (e - 52);
             y = of_int (round_half_even (x / ulp)) * ulp
         in if \<bar>y\<bar> \<ge> 2 ^ 1024 then (if x > 0 then PosInf else NegInf) else Num y))"

fun is_negative :: "number \<Rightarrow> bool" where
  "is_negative NegInf = True"
| "is_negative (Num x) = (x < 0)"
| "is_negative _ = False"

text \<open>\<open>a + b\<close>, \<open>a * b\<close> and \<open>a / b\<close> on JavaScript numbers.\<close>

fun num_add :: "number \<Rightarrow> number \<Rightarrow> number" where
  "num_add NaN _ = NaN"
| "num_add _ NaN = NaN"
| "num_add (Num x) (Num y) = round_double (x + y)"
| "num_add PosInf NegInf = NaN"
| "num_add NegInf PosInf = NaN"
| "num_add PosInf _ = PosInf"
| "num_add _ PosInf = PosInf"
| "num_add NegInf _ = NegInf"
| "num_add _ NegInf = NegInf"

fun num_mul :: "number \<Rightarrow> number \<Rightarrow> number" where
  "num_mul NaN _ = NaN"
| "num_mul _ NaN = NaN"
| "num_mul (Num x) (Num y) = round_double (x * y)"
| "num_mul a b =
     (if a = Num 0 \<or> b = Num 0 then NaN
      else if is_negative a = is_negative b then PosInf else NegInf)"

fun num_div :: "number \<Rightarrow> number \<Rightarrow> number" where
  "num_div NaN _ = NaN"
| "num_div _ NaN = NaN"
| "num_div (Num x) (Num y) =
     (if y = 0 then (if x = 0 then NaN else if x > 0 then PosInf else NegInf)
      else round_double (x / y))"
| "num_div (Num x) _ = Num 0"
| "num_div a (Num y) = (if is_negative a = (y < 0) then PosInf else NegInf)"
| "num_div _ _ = NaN"

text \<open>\<open>Math.round\<close>: the nearest integer, a half going up; it is a double
  whenever its argument is.\<close>

fun Math_round :: "number \<Rightarrow> number" where
  "Math_round (Num x) = Num (of_int \<lfloor>x + 1 / 2\<rfloor>)"
| "Math_round a = a"

text \<open>\<open>parseInt(s)\<close> with no radix: leading white space, a sign, a \<open>0x\<close> prefix
  (then hexadecimal), the longest run of digits; \<open>NaN\<close> when there is no digit,
  and otherwise the double nearest to the integer the digits denote.\<close>

definition digit_value :: "char \<Rightarrow> nat option" where
  "digit_value c =
     (let n = of_char c :: nat in
      if 48 \<le> n \<and> n \<le> 57 then Some (n - 48)
      else if 97 \<le> n \<and> n \<le> 122 then Some (n - 87)
      else if 65 \<le> n \<and> n \<le> 90 then Some (n - 55)
      else None)"

definition radix_digit :: "nat \<Rightarrow> char \<Rightarrow> bool" where
  "radix_digit radix c = (case digit_value c of Some d \<Rightarrow> d < radix | None \<Rightarrow> False)"

definition digits_value :: "nat \<Rightarrow> string \<Rightarrow> nat" where
  "digits_value radix z =
     foldl (\<lambda>acc c. acc * radix + (case digit_value c of Some d \<Rightarrow> d | None \<Rightarrow> 0)) 0 z"

definition parseInt :: "string \<Rightarrow> number" where
  "parseInt s =
     (let s1 = dropWhile isWhiteSpace s;
          negative = (take 1 s1 = ''-'');
          s2 = (if take 1 s1 = ''-'' \<or> take 1 s1 = ''+'' then drop 1 s1 else s1);
          hex = (take 2 s2 = ''0x'' \<or> take 2 s2 = ''0X'');
          radix = (if hex then 16 else 10);
          s3 = (if hex then drop 2 s2 else s2);
          z = takeWhile (radix_digit radix) s3
      in if z = [] then NaN
         else round_double
                (if negative then - real (digits_value radix z) else real (digits_value radix z)))"

text \<open>\<open>parseInt(plan.formData.horasLiquidas?.split(' ')[0] || '0')\<close>\<close>

definition hoursPerDay :: "StoredStudyPlan \<Rightarrow> number" where
  "hoursPerDay plan =
     (let token = takeWhile (\<lambda>c. c \<noteq> CHR 0x20) (horasLiquidas (formData plan))
      in parseInt (if token = [] then ''0'' else token))"

text \<open>The \<open>reduce\<close> over the days of a plan.\<close>

definition totalTasks :: "StoredStudyPlan \<Rightarrow> nat" where
  "totalTasks plan =
     foldl (\<lambda>acc dayPlan. if isRestDay dayPlan then acc
                           else acc + (if isSpecialDay dayPlan then 3 else 5))
       0 (plans plan)"

text \<open>\<open>totalTasks > 0 ? (completedTasks / totalTasks) * 100 : 0\<close>. The two counts
  are an array length and a sum of 3s and 5s over an array: integers below \<open>2^53\<close>,
  which are doubles as they stand.\<close>

definition planProgress :: "StoredStudyPlan \<Rightarrow> number" where
  "planProgress plan =
     (if totalTasks plan > 0
      then num_mul (num_div (Num (real (length (completedTasks plan)))) (Num (real (totalTasks plan))))
             (Num 100)
      else Num 0)"

text \<open>The accumulators of the \<open>forEach\<close> in \<open>getStats\<close> and one turn of it.\<close>

record stats_acc =
  allSubjects :: "string list"
  totalProgress :: number
  totalHours :: number

definition stats_step :: "StoredStudyPlan \<Rightarrow> stats_acc \<Rightarrow> stats_acc" where
  "stats_step plan acc =
     (let done = length (completedTasks plan);
          tasksPerDay = 5;
          hoursPerTask = num_div (hoursPerDay plan) (Num tasksPerDay)
      in \<lparr>allSubjects = fold List.insert (disciplinasDificuldade (formData plan)) (allSubjects acc),
          totalProgress = num_add (totalProgress acc) (planProgress plan),
          totalHours = num_add (totalHours acc) (num_mul (Num (real done)) hoursPerTask)\<rparr>)"

definition getStats :: "store \<Rightarrow> Stats" where
  "getStats st =
     (let ps = getAllPlans st in
      if length ps = 0
      then \<lparr>totalPlans = 0, activePlans = 0, totalHoursStudied = Num 0, totalSubjects = 0,
            averageProgress = Num 0\<rparr>
      else
        (let acc = fold stats_step ps \<lparr>allSubjects = [], totalProgress = Num 0, totalHours = Num 0\<rparr>
         in \<lparr>totalPlans = length ps,
             activePlans = length ps,
             totalHoursStudied =
               num_div (Math_round (num_mul (totalHours acc) (Num 10))) (Num 10),
             totalSubjects = length (allSubjects acc),
             averageProgress = Math_round (num_div (totalProgress acc) (Num (real (length ps))))\<rparr>))"

text \<open>The hours of one plan, as \<open>getStats\<close> adds them up:
  \<open>completedTasks * hoursPerTask\<close>.\<close>

definition planHours :: "StoredStudyPlan \<Rightarrow> number" where
  "planHours plan =
     num_mul (Num (real (length (completedTasks plan)))) (num_div (hoursPerDay plan) (Num 5))"

subsection \<open>Sequences of calls\<close>

text \<open>The store of a browser that has never run the program: both keys absent.\<close>

definition fresh_store :: store where
  "fresh_store = \<lparr>plan_slot = Absent, activity_slot = Absent\<rparr>"

text \<open>A run of \<open>logActivity\<close> calls, one per element, in order.\<close>

record log_call =
  call_type :: ActivityType
  call_title :: string
  call_description :: string
  call_stamp :: stamp

definition log_entry :: "log_call \<Rightarrow> Activity" where
  "log_entry c = newActivity (call_type c) (call_title c) (call_description c) (call_stamp c)"

definition logActivities :: "log_call list \<Rightarrow> store \<Rightarrow> store" where
  "logActivities cs st =
     fold (\<lambda>c. logActivity (call_type c) (call_title c) (call_description c) (call_stamp c)) cs st"

datatype call =
    SavePlan PlanData stamp stamp "unit remote_result"
  | SavePlanSync PlanData stamp stamp "unit remote_result"
  | UpdatePlan string PlanUpdates nat stamp stamp "unit remote_result"
  | UpdatePlanSync string PlanUpdates nat stamp stamp "unit remote_result"
  | UpdateCompletedTasks string "string list" nat stamp stamp "unit remote_result"
  | DeletePlan string "unit remote_result"

datatype outcome = PlanId string | Success bool

fun exec :: "call \<Rightarrow> store \<Rightarrow> outcome \<times> store" where
  "exec (SavePlan d s a r) st = (let (i, st1) = savePlan d s a r st in (PlanId i, st1))"
| "exec (SavePlanSync d s a r) st = (let (i, st1) = savePlanSync d s a r st in (PlanId i, st1))"
| "exec (UpdatePlan i u now s1 s2 r) st =
     (let (b, st1) = updatePlan i u now s1 s2 r st in (Success b, st1))"
| "exec (UpdatePlanSync i u now s1 s2 r) st =
     (let (b, st1) = updatePlanSync i u now s1 s2 r st in (Success b, st1))"
| "exec (UpdateCompletedTasks i ts now s1 s2 r) st =
     (let (b, st1) = updateCompletedTasks i ts now s1 s2 r st in (Success b, st1))"
| "exec (DeletePlan i r) st = (let (b, st1) = deletePlan i r st in (Success b, st1))"

fun run :: "call list \<Rightarrow> store \<Rightarrow> outcome list \<times> store" where
  "run [] st = ([], st)"
| "run (c # cs) st =
     (let (r, st1) = exec c st; (rs, st2) = run cs st1 in (r # rs, st2))"

text \<open>The arguments and readings of one \<open>savePlan\<close> or \<open>savePlanSync\<close> call, and
  the call they make.\<close>

record save_args =
  sync :: bool
  data :: PlanData
  plan_stamp :: stamp
  log_stamp :: stamp
  remote :: "unit remote_result"

definition save_call :: "save_args \<Rightarrow> call" where
  "save_call a =
     (if sync a then SavePlanSync (data a) (plan_stamp a) (log_stamp a) (remote a)
      else SavePlan (data a) (plan_stamp a) (log_stamp a) (remote a))"

text \<open>What the id of the new plan is built from: \<open>Date.now()\<close> and the random
  suffix.\<close>

definition id_readings :: "save_args \<Rightarrow> nat \<times> string" where
  "id_readings a = (date_now (plan_stamp a), random_suffix (plan_stamp a))"

text \<open>The reading a call takes for the timestamps of a plan (\<open>new Date()\<close>), if it
  takes one.\<close>

fun call_times :: "call \<Rightarrow> nat list" where
  "call_times (SavePlan d s a r) = [new_date s]"
| "call_times (SavePlanSync d s a r) = [new_date s]"
| "call_times (UpdatePlan i u now s1 s2 r) = [now]"
| "call_times (UpdatePlanSync i u now s1 s2 r) = [now]"
| "call_times (UpdateCompletedTasks i ts now s1 s2 r) = [now]"
| "call_times (DeletePlan i r) = []"

text \<open>The updates of the call, if it has any, do not carry \<open>createdAt\<close>.\<close>

fun keeps_createdAt :: "call \<Rightarrow> bool" where
  "keeps_createdAt (UpdatePlan i u now s1 s2 r) = (upd_createdAt u = None)"
| "keeps_createdAt (UpdatePlanSync i u now s1 s2 r) = (upd_createdAt u = None)"
| "keeps_createdAt _ = True"

text \<open>Every stored plan was created no later than it was last updated, and last
  updated no later than \<open>t\<close>.\<close>

definition stamps_ordered :: "nat \<Rightarrow> store \<Rightarrow> bool" where
  "stamps_ordered t st =
     list_all (\<lambda>p. createdAt p \<le> updatedAt p \<and> updatedAt p \<le> t) (getAllPlans st)"

subsection \<open>The statistics as the specification words them\<close>





text \<open>The hours per day as the specification words them: the parsed number, and 0
  when the token does not parse.\<close>

definition spec_hoursPerDay :: "StoredStudyPlan \<Rightarrow> real" where
  "spec_hoursPerDay p = (case hoursPerDay p of Num h \<Rightarrow> h | _ \<Rightarrow> 0)"

text \<open>The sum over the plans of \<open>completedTasks.length * (hoursPerDay / 5)\<close>, rounded
  to one decimal place.\<close>

definition spec_totalHoursStudied :: "StoredStudyPlan list \<Rightarrow> real" where
  "spec_totalHoursStudied ps =
     of_int (round (10 * (\<Sum>p\<leftarrow>ps. real (length (completedTasks p)) * (spec_hoursPerDay p / 5)))) / 10"

subsection \<open>Concrete inputs\<close>

definition form0 :: FormData where
  "form0 = \<lparr>form_concurso = ''TJ-CE'', form_cargo = ''Tecnico'', horasLiquidas = ''4 horas'',
     disciplinasDificuldade = [''Portugues'', ''Direito''], plataformaEstudo = ''PDF'',
     tempoEstudo = ''3 meses''\<rparr>"

definition data0 :: PlanData where
  "data0 = \<lparr>title = ''TJ-CE'', concurso = ''TJ-CE'', cargo = ''Tecnico'', totalDays = 2,
     completedTasks = [],
     plans = [\<lparr>isRestDay = False, isSpecialDay = False\<rparr>, \<lparr>isRestDay = True, isSpecialDay = True\<rparr>],
     formData = form0\<rparr>"

definition stamp_at :: "nat \<Rightarrow> stamp" where
  "stamp_at n = \<lparr>date_now = n, random_suffix = ''k3x9q2m1z'', new_date = n\<rparr>"

text \<open>The updates \<open>{}\<close>.\<close>

definition no_updates :: PlanUpdates where
  "no_updates =
     \<lparr>upd_id = None, upd_title = None, upd_concurso = None, upd_cargo = None,
      upd_createdAt = None, upd_updatedAt = None, upd_totalDays = None,
      upd_completedTasks = None, upd_plans = None, upd_formData = None\<rparr>"

definition plan_A :: StoredStudyPlan where
  "plan_A = newPlan data0 (stamp_at 1000)"

definition plan_B :: StoredStudyPlan where
  "plan_B = newPlan (data0\<lparr>title := ''Second''\<rparr>) (stamp_at 1000)"

text \<open>A plan with one normal day, one rest day and one special day, and four
  completed tasks.\<close>

definition plan_C :: StoredStudyPlan where
  "plan_C = newPlan (data0\<lparr>completedTasks := [''a'', ''b'', ''c'', ''d''],
      plans := [\<lparr>isRestDay = False, isSpecialDay = False\<rparr>, \<lparr>isRestDay = True, isSpecialDay = True\<rparr>,
                \<lparr>isRestDay = False, isSpecialDay = True\<rparr>]\<rparr>) (stamp_at 1000)"

text \<open>A plan with eight normal days (40 task slots) and 23 completed tasks, alone in
  the store.\<close>

definition plan_D :: StoredStudyPlan where
  "plan_D = newPlan (data0\<lparr>completedTasks := replicate 23 ''task'',
      plans := replicate 8 \<lparr>isRestDay = False, isSpecialDay = False\<rparr>\<rparr>) (stamp_at 1000)"

definition store_D :: store where
  "store_D = \<lparr>plan_slot = Stored [plan_D], activity_slot = Absent\<rparr>"

definition store_AB :: store where
  "store_AB = \<lparr>plan_slot = Stored [plan_A, plan_B], activity_slot = Absent\<rparr>"

text \<open>The store after \<open>savePlan(data0)\<close> at time 1000 in a fresh browser.\<close>

definition store_saved :: store where
  "store_saved = snd (savePlan data0 (stamp_at 1000) (stamp_at 1000) (Resolves ()) fresh_store)"

text \<open>Then \<open>updatePlan(id, { id: '' })\<close> at time 2000.\<close>

definition store_blank_id :: store where
  "store_blank_id =
     snd (updatePlan (new_plan_id (stamp_at 1000)) (no_updates\<lparr>upd_id := Some []\<rparr>) 2000
            (stamp_at 2000) (stamp_at 2000) (Resolves ()) store_saved)"

text \<open>A plan whose \<open>horasLiquidas\<close> does not start with a number, saved at time 1000.\<close>

definition data_words :: PlanData where
  "data_words = data0\<lparr>formData := form0\<lparr>horasLiquidas := ''quatro horas''\<rparr>\<rparr>"

definition store_words :: store where
  "store_words = snd (savePlan data_words (stamp_at 1000) (stamp_at 1000) (Resolves ()) fresh_store)"

text \<open>Sixty \<open>logActivity\<close> calls, the \<open>n\<close>-th made at time \<open>n\<close>.\<close>

definition nth_call :: "nat \<Rightarrow> log_call" where
  "nth_call n =
     \<lparr>call_type = updated, call_title = ''TJ-CE'', call_description = updated_description ''TJ-CE'',
      call_stamp = \<lparr>date_now = n, random_suffix = ''k3x9q2m1z'', new_date = n\<rparr>\<rparr>"

definition sixty_calls :: "log_call list" where
  "sixty_calls = map nth_call [1..<61]"

text \<open>Two saves one millisecond apart.\<close>

definition two_saves :: "save_args list" where
  "two_saves =
     [\<lparr>sync = False, data = data0, plan_stamp = stamp_at 1000, log_stamp = stamp_at 1000,
       remote = Rejects\<rparr>,
      \<lparr>sync = True, data = data0\<lparr>title := ''Second''\<rparr>, plan_stamp = stamp_at 1001,
       log_stamp = stamp_at 1001, remote = Resolves ()\<rparr>]"

text \<open>Two saves in the same millisecond that draw the same suffix.\<close>

definition twin_saves :: "save_args list" where
  "twin_saves =
     [\<lparr>sync = False, data = data0, plan_stamp = stamp_at 1000, log_stamp = stamp_at 1000,
       remote = Resolves ()\<rparr>,
      \<lparr>sync = True, data = data0\<lparr>title := ''Second''\<rparr>, plan_stamp = stamp_at 1000,
       log_stamp = stamp_at 1001, remote = Resolves ()\<rparr>]"

text \<open>\<open>savePlan\<close> at time 1000, then \<open>updateCompletedTasks\<close> at time 2000, then a
  \<open>deletePlan\<close> that misses.\<close>

definition usual_calls :: "call list" where
  "usual_calls =
     [SavePlan data0 (stamp_at 1000) (stamp_at 1000) (Resolves ()),
      UpdateCompletedTasks (new_plan_id (stamp_at 1000)) [''task-1''] 2000
        (stamp_at 2000) (stamp_at 2000) Rejects,
      DeletePlan ''plan_7'' (Resolves ())]"

text \<open>\<open>savePlan\<close> at time 1000, then \<open>updatePlan(id, { createdAt: 5000 })\<close> at time
  2000.\<close>

definition backdating_calls :: "call list" where
  "backdating_calls =
     [SavePlan data0 (stamp_at 1000) (stamp_at 1000) (Resolves ()),
      UpdatePlan (new_plan_id (stamp_at 1000)) (no_updates\<lparr>upd_createdAt := Some 5000\<rparr>) 2000
        (stamp_at 2000) (stamp_at 2000) (Resolves ())]"

section \<open>Properties of the store\<close>

subsection \<open>Lists, strings and the concrete inputs\<close>

lemma take_rev_append_take:
  "take n (xs @ take n ys) = take n (xs @ ys)"
  by (simp add: take_append min_def)

lemma take_Cons_take: "take n (x # take n xs) = take n (x # xs)"
  by (cases n) simp_all

lemma findIndex_None_iff: "findIndex P xs = None \<longleftrightarrow> (\<forall>x\<in>set xs. \<not> P x)"
  by (induction xs) auto

lemma findIndex_Some:
  "findIndex P xs = Some k \<Longrightarrow> k < length xs \<and> P (xs ! k) \<and> (\<forall>j<k. \<not> P (xs ! j))"
proof (induction xs arbitrary: k)
  case Nil
  then show ?case by simp
next
  case (Cons x xs)
  show ?case
  proof (cases "P x")
    case True
    with Cons.prems show ?thesis by simp
  next
    case False
    with Cons.prems obtain k' where k': "findIndex P xs = Some k'" "k = Suc k'"
      by auto
    from Cons.IH [OF k'(1)] False k'(2) show ?thesis
      by (auto simp: less_Suc_eq_0_disj)
  qed
qed

lemma findIndex_Some_iff:
  "findIndex P xs = Some k \<longleftrightarrow> k < length xs \<and> P (xs ! k) \<and> (\<forall>j<k. \<not> P (xs ! j))"
proof
  assume "findIndex P xs = Some k"
  then show "k < length xs \<and> P (xs ! k) \<and> (\<forall>j<k. \<not> P (xs ! j))"
    by (rule findIndex_Some)
next
  assume r: "k < length xs \<and> P (xs ! k) \<and> (\<forall>j<k. \<not> P (xs ! j))"
  then have "\<not> (\<forall>x\<in>set xs. \<not> P x)"
    using nth_mem by blast
  then obtain k' where k': "findIndex P xs = Some k'"
    using findIndex_None_iff [of P xs] by (cases "findIndex P xs") auto
  from findIndex_Some [OF k'] r have "k' = k"
    by (meson linorder_neqE_nat)
  with k' show "findIndex P xs = Some k" by simp
qed

lemma filter_enumerate_other:
  "m < n \<Longrightarrow> map snd (filter (\<lambda>(index, _). index \<noteq> m) (enumerate n xs)) = xs"
  by (induction xs arbitrary: n) auto

lemma filter_enumerate_index:
  "map snd (filter (\<lambda>(index, _). index \<noteq> n + k) (enumerate n xs)) = take k xs @ drop (Suc k) xs"
proof (induction xs arbitrary: n k)
  case Nil
  show ?case by simp
next
  case (Cons x xs)
  show ?case
  proof (cases k)
    case 0
    then show ?thesis
      by (simp add: filter_enumerate_other)
  next
    case (Suc k')
    with Cons.IH [of "Suc n" k'] show ?thesis
      by simp
  qed
qed

lemma split_at_first:
  assumes "xs @ a # ys = xs' @ a # ys'" and "a \<notin> set xs" and "a \<notin> set xs'"
  shows "xs = xs' \<and> ys = ys'"
proof -
  have "takeWhile (\<lambda>x. x \<noteq> a) (xs @ a # ys) = xs"
    using assms(2) by (induction xs) auto
  moreover have "takeWhile (\<lambda>x. x \<noteq> a) (xs' @ a # ys') = xs'"
    using assms(3) by (induction xs') auto
  ultimately have "xs = xs'" using assms(1) by simp
  with assms(1) show ?thesis by simp
qed

lemma trim_Nil: "trim [] = []"
  by (simp add: trim_def)

lemma trim_padded: "trim ''  plan_1000_k3x9q2m1z '' = ''plan_1000_k3x9q2m1z''"
  by (simp add: trim_def isWhiteSpace_def)

lemma new_date_stamp_at: "new_date (stamp_at n) = n"
  by (simp add: stamp_at_def)

lemma new_plan_id_1000: "new_plan_id (stamp_at 1000) = ''plan_1000_k3x9q2m1z''"
  by code_simp

subsection \<open>The stored plans and the log after each operation\<close>

lemma getAllPlans_fresh_store: "getAllPlans fresh_store = []"
  by (simp add: getAllPlans_def fresh_store_def)

lemma getAllPlans_setPlans: "getAllPlans (setPlans ps st) = ps"
  by (simp add: getAllPlans_def setPlans_def)

lemma getActivityLog_setPlans: "getActivityLog (setPlans ps st) = getActivityLog st"
  by (simp add: getActivityLog_def setPlans_def)

lemma getActivityLog_logActivity:
  "getActivityLog (logActivity ty ttl descr s st) =
     take 50 (newActivity ty ttl descr s # getActivityLog st)"
  by (simp add: logActivity_def getActivityLog_def Let_def)

lemma getAllPlans_logActivity:
  "getAllPlans (logActivity ty ttl descr s st) = getAllPlans st"
  by (simp add: logActivity_def getAllPlans_def Let_def)

lemma getActivityLog_logActivities:
  "getActivityLog (logActivities cs st) =
     (if cs = [] then getActivityLog st
      else take 50 (rev (map log_entry cs) @ getActivityLog st))"
proof (induction cs arbitrary: st)
  case Nil
  show ?case by (simp add: logActivities_def)
next
  case (Cons c cs)
  have step: "logActivities (c # cs) st =
      logActivities cs (logActivity (call_type c) (call_title c) (call_description c) (call_stamp c) st)"
    by (simp add: logActivities_def)
  let ?st1 = "logActivity (call_type c) (call_title c) (call_description c) (call_stamp c) st"
  show ?case
  proof (cases "cs = []")
    case True
    then show ?thesis
      by (simp add: logActivities_def getActivityLog_logActivity log_entry_def)
  next
    case False
    have "getActivityLog (logActivities (c # cs) st) =
        take 50 (rev (map log_entry cs) @ getActivityLog ?st1)"
      using Cons.IH [of ?st1] False by (simp only: step if_False)
    also have "\<dots> = take 50 (rev (map log_entry cs) @ take 50 (log_entry c # getActivityLog st))"
      by (simp only: getActivityLog_logActivity log_entry_def)
    also have "\<dots> = take 50 (rev (map log_entry cs) @ (log_entry c # getActivityLog st))"
      by (rule take_rev_append_take)
    also have "\<dots> = take 50 (rev (map log_entry (c # cs)) @ getActivityLog st)"
      by simp
    finally show ?thesis by simp
  qed
qed

lemma getAllPlans_savePlan:
  "getAllPlans (snd (savePlan d s a r st)) = getAllPlans st @ [newPlan d s]"
  by (cases r) (simp_all add: savePlan_def Let_def getAllPlans_logActivity getAllPlans_setPlans)

lemma getAllPlans_savePlanSync:
  "getAllPlans (snd (savePlanSync d s a r st)) = getAllPlans st @ [newPlan d s]"
  by (cases r) (simp_all add: savePlanSync_def Let_def getAllPlans_logActivity getAllPlans_setPlans)

lemma fst_savePlan: "fst (savePlan d s a r st) = new_plan_id s"
  by (cases r) (simp_all add: savePlan_def Let_def newPlan_def)

lemma fst_savePlanSync: "fst (savePlanSync d s a r st) = new_plan_id s"
  by (cases r) (simp_all add: savePlanSync_def Let_def newPlan_def)

lemma plan_id_newPlan: "plan_id (newPlan d s) = new_plan_id s"
  by (simp add: newPlan_def)

lemma completedTasks_mergeUpdates:
  "upd_completedTasks u = Some ts \<Longrightarrow> completedTasks (mergeUpdates p u now) = ts"
  by (simp add: mergeUpdates_def override_def)

text \<open>The stored plans after each operation.\<close>

lemma getAllPlans_updatePlan:
  "getAllPlans (snd (updatePlan i u now s1 s2 r st)) =
     (case findIndex (\<lambda>plan. plan_id plan = i) (getAllPlans st) of
        None \<Rightarrow> getAllPlans st
      | Some k \<Rightarrow> (getAllPlans st)[k := mergeUpdates (getAllPlans st ! k) u now])"
  by (cases r)
     (simp_all add: updatePlan_def Let_def getAllPlans_setPlans getAllPlans_logActivity
        split: option.splits)

lemma getAllPlans_updatePlanSync:
  "getAllPlans (snd (updatePlanSync i u now s1 s2 r st)) =
     (case findIndex (\<lambda>plan. plan_id plan = i) (getAllPlans st) of
        None \<Rightarrow> getAllPlans st
      | Some k \<Rightarrow> (getAllPlans st)[k := mergeUpdates (getAllPlans st ! k) u now])"
  by (cases r)
     (simp_all add: updatePlanSync_def Let_def getAllPlans_setPlans getAllPlans_logActivity
        split: option.splits)

lemma getAllPlans_updateCompletedTasks:
  "getAllPlans (snd (updateCompletedTasks i ts now s1 s2 r st)) =
     (if i = [] then getAllPlans st
      else getAllPlans (snd (updatePlanSync i (onlyCompletedTasks ts) now s1 s2 r st)))"
  by (simp add: updateCompletedTasks_def split_beta getAllPlans_setPlans)

text \<open>\<open>deleteFromLocalStorage\<close> in terms of the stored plans.\<close>

lemma deleteFromLocalStorage_found:
  assumes "findIndex (\<lambda>plan. plan_id plan = i) (getAllPlans st) = Some k"
  shows "deleteFromLocalStorage i st =
           (True, st\<lparr>plan_slot := Stored (take k (getAllPlans st) @ drop (Suc k) (getAllPlans st))\<rparr>)"
proof (cases "plan_slot st")
  case (Stored ps)
  with assms have "findIndex (\<lambda>plan. plan_id plan = i) ps = Some k"
    by (simp add: getAllPlans_def)
  with Stored show ?thesis
    using filter_enumerate_index [of 0 k ps]
    by (simp add: deleteFromLocalStorage_def getAllPlans_def setPlans_def)
qed (use assms in \<open>simp_all add: getAllPlans_def\<close>)

lemma deleteFromLocalStorage_missing:
  assumes "findIndex (\<lambda>plan. plan_id plan = i) (getAllPlans st) = None"
  shows "deleteFromLocalStorage i st = (False, st)"
  using assms by (cases "plan_slot st") (simp_all add: deleteFromLocalStorage_def getAllPlans_def)

lemma getAllPlans_deletePlan:
  "getAllPlans (snd (deletePlan i r st)) =
     (if trim i = [] then getAllPlans st
      else case findIndex (\<lambda>plan. plan_id plan = trim i) (getAllPlans st) of
        None \<Rightarrow> getAllPlans st
      | Some k \<Rightarrow> take k (getAllPlans st) @ drop (Suc k) (getAllPlans st))"
proof (cases "trim i = []")
  case True
  then show ?thesis by (simp add: deletePlan_def)
next
  case False
  then have "i \<noteq> []" using trim_Nil by auto
  with False show ?thesis
    by (cases r)
       (auto simp: deletePlan_def Let_def deleteFromLocalStorage_found deleteFromLocalStorage_missing
          getAllPlans_def split: option.splits)
qed

lemma set_deletePlan: "set (getAllPlans (snd (deletePlan i r st))) \<subseteq> set (getAllPlans st)"
  by (auto simp: getAllPlans_deletePlan split: option.splits dest: in_set_takeD in_set_dropD)

lemma getAllPlans_store_saved: "getAllPlans store_saved = [plan_A]"
  by (simp add: store_saved_def savePlan_def Let_def getAllPlans_logActivity getAllPlans_setPlans
        fresh_store_def plan_A_def)
     (simp add: getAllPlans_def)

lemma getActivityLog_store_saved:
  "getActivityLog store_saved =
     [newActivity created (title data0) (created_description (title data0)) (stamp_at 1000)]"
  by (simp add: store_saved_def savePlan_def Let_def getActivityLog_logActivity
        getActivityLog_setPlans fresh_store_def newPlan_def)
     (simp add: getActivityLog_def)

lemma getAllPlans_store_AB: "getAllPlans store_AB = [plan_A, plan_B]"
  by (simp add: store_AB_def getAllPlans_def)

lemma plan_id_plan_A: "plan_id plan_A = ''plan_1000_k3x9q2m1z''"
  by (simp add: plan_A_def newPlan_def new_plan_id_1000)

lemma plan_id_plan_B: "plan_id plan_B = ''plan_1000_k3x9q2m1z''"
  by (simp add: plan_B_def newPlan_def new_plan_id_1000)

lemma getAllPlans_store_blank_id:
  "map plan_id (getAllPlans store_blank_id) = [[]]"
proof -
  have "findIndex (\<lambda>plan. plan_id plan = new_plan_id (stamp_at 1000)) (getAllPlans store_saved) = Some 0"
    by (simp add: getAllPlans_store_saved plan_A_def newPlan_def)
  then show ?thesis
    by (simp add: store_blank_id_def updatePlan_def Let_def getAllPlans_setPlans
          getAllPlans_store_saved no_updates_def mergeUpdates_def override_def)
qed

subsection \<open>The activity log\<close>

text \<open>
  C9. After a \<open>logActivity\<close> call, and so after any non-empty run of them, the
  persisted log is the entries of the run, newest first, in front of the log as it
  was, cut to its first 50 entries (the oldest are the ones dropped); it has at
  most 50 entries and its first entry is that of the last call. A run of one call
  is that call. After 60 calls the log has at most 50 entries and starts with the
  60th.
\<close>

theorem activity_log_retention:
  assumes "cs \<noteq> []"
  shows "getActivityLog (logActivities cs st) =
           take 50 (rev (map log_entry cs) @ getActivityLog st)
       \<and> length (getActivityLog (logActivities cs st)) \<le> 50
       \<and> hd (getActivityLog (logActivities cs st)) = log_entry (last cs)
       \<and> logActivities [c] st =
           logActivity (call_type c) (call_title c) (call_description c) (call_stamp c) st"
proof -
  have log: "getActivityLog (logActivities cs st) =
      take 50 (rev (map log_entry cs) @ getActivityLog st)"
    using assms by (simp add: getActivityLog_logActivities)
  obtain ys y where cs: "cs = ys @ [y]"
    using assms by (cases cs rule: rev_cases) auto
  have "hd (getActivityLog (logActivities cs st)) = log_entry (last cs)"
    unfolding log by (simp add: cs)
  moreover have "length (getActivityLog (logActivities cs st)) \<le> 50"
    by (simp add: log)
  moreover have "logActivities [c] st =
      logActivity (call_type c) (call_title c) (call_description c) (call_stamp c) st"
    by (simp add: logActivities_def)
  ultimately show ?thesis using log by simp
qed

theorem activity_log_retention_witness:
  "sixty_calls \<noteq> []
   \<and> length sixty_calls = 60
   \<and> length (getActivityLog (logActivities sixty_calls fresh_store)) \<le> 50
   \<and> hd (getActivityLog (logActivities sixty_calls fresh_store)) = log_entry (nth_call 60)"
proof -
  have ne: "sixty_calls \<noteq> []"
    by (simp add: sixty_calls_def)
  have l: "last sixty_calls = nth_call 60"
    by (simp add: sixty_calls_def last_map)
  have n: "length sixty_calls = 60"
    by (simp add: sixty_calls_def)
  from activity_log_retention [OF ne, of fresh_store]
  have "length (getActivityLog (logActivities sixty_calls fresh_store)) \<le> 50"
    and "hd (getActivityLog (logActivities sixty_calls fresh_store)) = log_entry (last sixty_calls)"
    by blast+
  with ne n l show ?thesis by simp
qed

text \<open>What \<open>updatePlan\<close> logs: nothing without \<open>completedTasks\<close> in the updates,
  and otherwise the \<open>updated\<close> entry alone, whatever the two lengths are.\<close>

lemma updatePlan_activity_log:
  "getActivityLog (snd (updatePlan i u now s1 s2 r st)) =
     (case findIndex (\<lambda>plan. plan_id plan = i) (getAllPlans st) of
        None \<Rightarrow> getActivityLog st
      | Some k \<Rightarrow>
          (case upd_completedTasks u of
             None \<Rightarrow> getActivityLog st
           | Some ts \<Rightarrow>
               take 50 (newActivity updated (title (mergeUpdates (getAllPlans st ! k) u now))
                          (updated_description (title (mergeUpdates (getAllPlans st ! k) u now))) s2
                        # getActivityLog st)))"
proof (cases "findIndex (\<lambda>plan. plan_id plan = i) (getAllPlans st)")
  case None
  then show ?thesis by (simp add: updatePlan_def)
next
  case (Some k)
  then have k: "k < length (getAllPlans st)"
    by (simp add: findIndex_Some)
  show ?thesis
  proof (cases "upd_completedTasks u")
    case None
    with Some show ?thesis
      by (cases r) (simp_all add: updatePlan_def Let_def getActivityLog_setPlans)
  next
    case (Some ts)
    with \<open>findIndex _ _ = Some k\<close> k show ?thesis
      by (cases r)
         (simp_all add: updatePlan_def Let_def getActivityLog_setPlans getActivityLog_logActivity
            completedTasks_mergeUpdates)
  qed
qed

text \<open>What \<open>updatePlanSync\<close> logs when the new \<open>completedTasks\<close> are longer than the
  stored ones: \<open>completed_task\<close> first, then \<open>updated\<close>, which ends at index 0.\<close>

lemma updatePlanSync_activity_log:
  assumes "findIndex (\<lambda>plan. plan_id plan = i) (getAllPlans st) = Some k"
    and "upd_completedTasks u = Some ts"
    and "length ts > length (completedTasks (getAllPlans st ! k))"
  shows "getActivityLog (snd (updatePlanSync i u now s1 s2 r st)) =
     take 50 (newActivity updated (title (mergeUpdates (getAllPlans st ! k) u now))
                (updated_description (title (mergeUpdates (getAllPlans st ! k) u now))) s2
              # newActivity completed_task (title (mergeUpdates (getAllPlans st ! k) u now))
                  (completed_description (title (mergeUpdates (getAllPlans st ! k) u now))) s1
              # getActivityLog st)"
  using assms
  by (cases r)
     (simp_all add: updatePlanSync_def Let_def getActivityLog_setPlans getActivityLog_logActivity
        take_Cons_take del: take_Suc_Cons)

text \<open>
  C1, at a failing input. The stored plan has no completed task and the updates
  carry one. \<open>updatePlan\<close> returns \<open>true\<close> and logs the \<open>updated\<close> entry alone:
  the log reads \<open>updated\<close>, \<open>created\<close>. \<open>updatePlanSync\<close>, on the same
  input, logs both: the log reads \<open>updated\<close>, \<open>completed_task\<close>, \<open>created\<close>.
\<close>

theorem updatePlan_misses_completed_task:
  "getAllPlans store_saved = [plan_A]
   \<and> length (completedTasks plan_A) < length [''task-1'']
   \<and> fst (updatePlan (plan_id plan_A) (onlyCompletedTasks [''task-1'']) 2000
           (stamp_at 2001) (stamp_at 2002) (Resolves ()) store_saved)
   \<and> map activity_type
        (getActivityLog (snd (updatePlan (plan_id plan_A) (onlyCompletedTasks [''task-1'']) 2000
           (stamp_at 2001) (stamp_at 2002) (Resolves ()) store_saved))) = [updated, created]
   \<and> map activity_type
        (getActivityLog (snd (updatePlanSync (plan_id plan_A) (onlyCompletedTasks [''task-1'']) 2000
           (stamp_at 2001) (stamp_at 2002) (Resolves ()) store_saved))) =
       [updated, completed_task, created]"
proof -
  have idx: "findIndex (\<lambda>plan. plan_id plan = plan_id plan_A) (getAllPlans store_saved) = Some 0"
    by (simp add: getAllPlans_store_saved)
  have short: "length (completedTasks plan_A) < length [''task-1'']"
    by (simp add: plan_A_def newPlan_def data0_def)
  have ret: "fst (updatePlan (plan_id plan_A) (onlyCompletedTasks [''task-1'']) 2000
           (stamp_at 2001) (stamp_at 2002) (Resolves ()) store_saved)"
    using idx by (simp add: updatePlan_def Let_def)
  have async: "map activity_type
        (getActivityLog (snd (updatePlan (plan_id plan_A) (onlyCompletedTasks [''task-1'']) 2000
           (stamp_at 2001) (stamp_at 2002) (Resolves ()) store_saved))) = [updated, created]"
    using idx
    by (simp add: updatePlan_activity_log onlyCompletedTasks_def newActivity_def
          getActivityLog_store_saved)
  have sync: "map activity_type
        (getActivityLog (snd (updatePlanSync (plan_id plan_A) (onlyCompletedTasks [''task-1'']) 2000
           (stamp_at 2001) (stamp_at 2002) (Resolves ()) store_saved))) =
       [updated, completed_task, created]"
    using short
    by (simp add: updatePlanSync_activity_log [OF idx, of _ "[''task-1'']"] onlyCompletedTasks_def
          newActivity_def getAllPlans_store_saved getActivityLog_store_saved)
  from getAllPlans_store_saved short ret async sync show ?thesis by simp
qed

subsection \<open>Saving, loading and looking up\<close>

text \<open>
  C7. \<open>savePlan\<close> and \<open>savePlanSync\<close>, whatever the remote write does, return
  the id of the new record and leave the stored plans as the old ones followed by
  one new record: its fields are those of the argument, its id is the returned id,
  \<open>createdAt\<close> and \<open>updatedAt\<close> are the creation time. The activity log is
  the old one with one new entry in front (cut to 50 entries): the entry has type
  \<open>created\<close>, the plan's title, the description \<open>Plano "title" foi criado\<close>,
  the time of the logging and an id built from that time and a random suffix.
\<close>

theorem savePlan_local_durability:
  "(let (i, st1) = savePlan d s a r st; np = last (getAllPlans st1);
        entry = hd (getActivityLog st1) in
      getAllPlans st1 = getAllPlans st @ [np]
      \<and> PlanData.truncate np = d \<and> plan_id np = i
      \<and> createdAt np = new_date s \<and> updatedAt np = new_date s
      \<and> getActivityLog st1 =
          take 50 (newActivity created (title d) (created_description (title d)) a # getActivityLog st)
      \<and> getActivityLog st1 = take 50 (entry # getActivityLog st)
      \<and> activity_type entry = created
      \<and> planTitle entry = title d
      \<and> description entry = ''Plano '' @ [CHR 0x22] @ title d @ [CHR 0x22] @ '' foi criado''
      \<and> timestamp entry = new_date a
      \<and> activity_id entry = ''activity_'' @ decimal (date_now a) @ ''_'' @ random_suffix a)
   \<and> (let (i, st1) = savePlanSync d s a r st; np = last (getAllPlans st1);
        entry = hd (getActivityLog st1) in
      getAllPlans st1 = getAllPlans st @ [np]
      \<and> PlanData.truncate np = d \<and> plan_id np = i
      \<and> createdAt np = new_date s \<and> updatedAt np = new_date s
      \<and> getActivityLog st1 =
          take 50 (newActivity created (title d) (created_description (title d)) a # getActivityLog st)
      \<and> getActivityLog st1 = take 50 (entry # getActivityLog st)
      \<and> activity_type entry = created
      \<and> planTitle entry = title d
      \<and> description entry = ''Plano '' @ [CHR 0x22] @ title d @ [CHR 0x22] @ '' foi criado''
      \<and> timestamp entry = new_date a
      \<and> activity_id entry = ''activity_'' @ decimal (date_now a) @ ''_'' @ random_suffix a)"
  by (cases r)
     (simp_all add: savePlan_def savePlanSync_def Let_def newPlan_def setPlans_def
        logActivity_def getAllPlans_def getActivityLog_def PlanData.defs newActivity_def
        created_description_def quote_def new_activity_id_def)

text \<open>
  C5. \<open>loadFromSupabase\<close> has three behaviours, one per outcome of the remote
  fetch: a non-empty result is returned and replaces the stored plans (the
  activity log is not touched); an empty result is returned and the store is left
  as it was; a rejection returns the plans of the local store and leaves the
  store as it was.
\<close>

theorem loadFromSupabase_behaviours:
  "loadFromSupabase (Resolves (p # ps)) st = (p # ps, st\<lparr>plan_slot := Stored (p # ps)\<rparr>)
   \<and> getAllPlans (snd (loadFromSupabase (Resolves (p # ps)) st)) = p # ps
   \<and> getActivityLog (snd (loadFromSupabase (Resolves (p # ps)) st)) = getActivityLog st
   \<and> loadFromSupabase (Resolves []) st = ([], st)
   \<and> loadFromSupabase Rejects st = (getAllPlans st, st)"
  by (simp add: loadFromSupabase_def setPlans_def getAllPlans_def getActivityLog_def)

text \<open>
  C10. \<open>getPlanById\<close> returns \<open>null\<close> exactly when no stored plan has the id;
  it returns a plan exactly when that plan is the first stored plan with the id;
  the store after the call is the store before it.
\<close>

theorem getPlanById_first_match:
  "(fst (getPlanById i st) = None \<longleftrightarrow> (\<forall>p\<in>set (getAllPlans st). plan_id p \<noteq> i))
   \<and> (fst (getPlanById i st) = Some p \<longleftrightarrow>
        (\<exists>k<length (getAllPlans st). getAllPlans st ! k = p \<and> plan_id p = i
           \<and> (\<forall>j<k. plan_id (getAllPlans st ! j) \<noteq> i)))
   \<and> snd (getPlanById i st) = st"
  by (auto simp: getPlanById_def Let_def find_None_iff find_Some_iff)

theorem getPlanById_first_match_witness:
  "fst (getPlanById ''plan_1000_k3x9q2m1z'' store_AB) = Some plan_A
   \<and> plan_id plan_B = plan_id plan_A \<and> plan_B \<noteq> plan_A
   \<and> (\<exists>k<length (getAllPlans store_AB). getAllPlans store_AB ! k = plan_A)
   \<and> fst (getPlanById ''other'' store_AB) = None
   \<and> snd (getPlanById ''plan_1000_k3x9q2m1z'' store_AB) = store_AB"
proof -
  have "new_plan_id (stamp_at 1000) = ''plan_1000_k3x9q2m1z''"
    by code_simp
  then have found: "fst (getPlanById ''plan_1000_k3x9q2m1z'' store_AB) = Some plan_A"
    by (simp add: getPlanById_def store_AB_def getAllPlans_def plan_A_def plan_B_def newPlan_def)
  have "\<forall>p\<in>set (getAllPlans store_AB). plan_id p \<noteq> ''other''"
    by (simp add: store_AB_def getAllPlans_def plan_A_def plan_B_def newPlan_def new_plan_id_def)
  with getPlanById_first_match [of "''other''" store_AB]
  have none: "fst (getPlanById ''other'' store_AB) = None"
    by blast
  from found getPlanById_first_match [of "''plan_1000_k3x9q2m1z''" store_AB plan_A]
  have ex: "\<exists>k<length (getAllPlans store_AB). getAllPlans store_AB ! k = plan_A"
    by blast
  have "plan_id plan_B = plan_id plan_A" "plan_B \<noteq> plan_A"
    by (simp_all add: plan_A_def plan_B_def newPlan_def data0_def)
  with found none ex getPlanById_first_match [of "''plan_1000_k3x9q2m1z''" store_AB]
  show ?thesis by simp
qed

subsection \<open>Deleting\<close>

text \<open>
  C6 as amended. \<open>deletePlan\<close> returns \<open>true\<close> exactly when the trimmed id is
  not empty and is the id of a stored plan. Then the store after the call is the
  store before it without the first plan of that id (and nothing else changes),
  whatever the remote delete does. When it returns \<open>false\<close> the store is the one
  before the call.
\<close>

theorem deletePlan_trimmed_id:
  "(fst (deletePlan i r st) \<longleftrightarrow>
      trim i \<noteq> [] \<and> (\<exists>p\<in>set (getAllPlans st). plan_id p = trim i))
   \<and> (fst (deletePlan i r st) \<longrightarrow>
        (\<exists>k<length (getAllPlans st).
           plan_id (getAllPlans st ! k) = trim i
           \<and> (\<forall>j<k. plan_id (getAllPlans st ! j) \<noteq> trim i)
           \<and> snd (deletePlan i r st) =
               st\<lparr>plan_slot := Stored (take k (getAllPlans st) @ drop (Suc k) (getAllPlans st))\<rparr>))
   \<and> (\<not> fst (deletePlan i r st) \<longrightarrow> snd (deletePlan i r st) = st)"
proof (cases "trim i = []")
  case True
  then show ?thesis by (simp add: deletePlan_def)
next
  case False
  then have ne: "i \<noteq> []" using trim_Nil by auto
  show ?thesis
  proof (cases "findIndex (\<lambda>plan. plan_id plan = trim i) (getAllPlans st)")
    case None
    then have "\<forall>p\<in>set (getAllPlans st). plan_id p \<noteq> trim i"
      by (simp add: findIndex_None_iff)
    with None False ne show ?thesis
      by (auto simp: deletePlan_def Let_def deleteFromLocalStorage_missing)
  next
    case (Some k)
    from findIndex_Some [OF Some]
    have k: "k < length (getAllPlans st)" "plan_id (getAllPlans st ! k) = trim i"
      "\<forall>j<k. plan_id (getAllPlans st ! j) \<noteq> trim i"
      by auto
    have res: "deletePlan i r st =
        (True, st\<lparr>plan_slot := Stored (take k (getAllPlans st) @ drop (Suc k) (getAllPlans st))\<rparr>)"
      using False ne by (cases r) (simp_all add: deletePlan_def Let_def deleteFromLocalStorage_found [OF Some])
    have "\<exists>p\<in>set (getAllPlans st). plan_id p = trim i"
      using k(1,2) nth_mem by blast
    with False k res show ?thesis
      by auto
  qed
qed

theorem deletePlan_trimmed_id_witness:
  "fst (deletePlan ''  plan_1000_k3x9q2m1z '' Rejects store_AB)
   \<and> getAllPlans (snd (deletePlan ''  plan_1000_k3x9q2m1z '' Rejects store_AB)) = [plan_B]
   \<and> \<not> fst (deletePlan ''plan_7'' Rejects store_AB)
   \<and> snd (deletePlan ''plan_7'' Rejects store_AB) = store_AB"
proof -
  let ?i = "''  plan_1000_k3x9q2m1z ''"
  note t = deletePlan_trimmed_id [of ?i Rejects store_AB]
  have ok: "fst (deletePlan ?i Rejects store_AB)"
    using t by (simp add: trim_padded getAllPlans_store_AB plan_id_plan_A)
  with t obtain k where k: "k < length (getAllPlans store_AB)"
    "\<forall>j<k. plan_id (getAllPlans store_AB ! j) \<noteq> trim ?i"
    "snd (deletePlan ?i Rejects store_AB) =
       store_AB\<lparr>plan_slot := Stored (take k (getAllPlans store_AB) @ drop (Suc k) (getAllPlans store_AB))\<rparr>"
    by blast
  have "k = 0"
  proof (rule ccontr)
    assume "k \<noteq> 0"
    then have "plan_id (getAllPlans store_AB ! 0) \<noteq> trim ?i" using k(2) by blast
    then show False by (simp add: trim_padded getAllPlans_store_AB plan_id_plan_A)
  qed
  with k(3) have after: "getAllPlans (snd (deletePlan ?i Rejects store_AB)) = [plan_B]"
    by (simp add: getAllPlans_store_AB) (simp add: getAllPlans_def)
  note u = deletePlan_trimmed_id [of "''plan_7''" Rejects store_AB]
  have "trim ''plan_7'' = ''plan_7''"
    by (simp add: trim_def isWhiteSpace_def)
  then have miss: "\<not> fst (deletePlan ''plan_7'' Rejects store_AB)"
    using u by (simp add: getAllPlans_store_AB plan_id_plan_A plan_id_plan_B)
  with u have "snd (deletePlan ''plan_7'' Rejects store_AB) = store_AB"
    by blast
  with ok after miss show ?thesis by simp
qed

text \<open>
  C6 as stated fails. After \<open>savePlan\<close> and \<open>updatePlan(id, { id: '' })\<close> the
  stored plan has the empty id. The id \<open>' '\<close> (one space) is a non-empty string
  and its trimmed value is the id of that plan, but \<open>deletePlan(' ')\<close>
  returns \<open>false\<close>: the guard \<open>id.trim() === ''\<close> refuses it.
\<close>

theorem deletePlan_blank_id_counterexample:
  "'' '' \<noteq> []
   \<and> (\<exists>p\<in>set (getAllPlans store_blank_id). plan_id p = trim '' '')
   \<and> \<not> fst (deletePlan '' '' (Resolves ()) store_blank_id)"
proof -
  have t: "trim '' '' = []"
    by (simp add: trim_def isWhiteSpace_def)
  have "[] \<in> set (map plan_id (getAllPlans store_blank_id))"
    by (simp only: getAllPlans_store_blank_id) simp
  then have "\<exists>p\<in>set (getAllPlans store_blank_id). plan_id p = []"
    unfolding set_map image_iff by (rule bexE) (rule bexI, rule sym)
  with t show ?thesis
    by (simp add: deletePlan_def)
qed

subsection \<open>Statistics\<close>





lemma totalHours_fold:
  "totalHours (fold stats_step ps acc) = foldl num_add (totalHours acc) (map planHours ps)"
  by (induction ps arbitrary: acc) (simp_all add: stats_step_def Let_def planHours_def)


lemma bit_length_numeral:
  "bit_length (numeral (Num.Bit0 n)) = Suc (bit_length (numeral n))"
  "bit_length (numeral (Num.Bit1 n)) = Suc (bit_length (numeral n))"
  "bit_length 1 = 1"
  "bit_length (Suc 0) = 1"
  "bit_length 0 = 0"
  by (subst bit_length.simps, simp add: numeral_Bit0_div_2 numeral_Bit1_div_2 bit_length.simps)+

lemma bit_length_pos: "0 < n \<Longrightarrow> 0 < bit_length n"
  by (subst bit_length.simps) simp

lemma bit_length_bounds:
  "0 < n \<Longrightarrow> 2 ^ (bit_length n - 1) \<le> n \<and> n < 2 ^ bit_length n"
proof (induction n rule: less_induct)
  case (less n)
  have b: "bit_length n = Suc (bit_length (n div 2))"
    using less.prems by (subst bit_length.simps) simp
  show ?case
  proof (cases "n div 2 = 0")
    case True
    with less.prems have "n = 1" by presburger
    then show ?thesis
      by (simp add: bit_length_numeral)
  next
    case False
    then have "0 < n div 2" "n div 2 < n" using less.prems by simp_all
    from less.IH [OF this(2,1)]
    have lo: "2 ^ (bit_length (n div 2) - 1) \<le> n div 2" and hi: "n div 2 < 2 ^ bit_length (n div 2)"
      by simp_all
    from bit_length_pos [OF \<open>0 < n div 2\<close>]
    obtain k where k: "bit_length (n div 2) = Suc k"
      by (cases "bit_length (n div 2)") simp_all
    from lo k have "2 ^ Suc k \<le> 2 * (n div 2)" by simp
    also have "\<dots> \<le> n" by simp
    finally have l: "2 ^ (bit_length n - 1) \<le> n"
      by (simp add: b k)
    from hi have "n div 2 + 1 \<le> 2 ^ bit_length (n div 2)" by simp
    then have "2 * (n div 2) + 2 \<le> 2 ^ bit_length n"
      by (simp add: b)
    moreover have "n < 2 * (n div 2) + 2" by presburger
    ultimately have "n < 2 ^ bit_length n" by simp
    with l show ?thesis by simp
  qed
qed

lemma pow2_nat: "pow2 (int k) = 2 ^ k"
  by (simp add: pow2_def)

lemma pow2_neg: "pow2 (- int k) = 1 / 2 ^ k"
proof (cases k)
  case 0
  then show ?thesis by (simp add: pow2_def)
next
  case (Suc j)
  then have "\<not> (0 \<le> - int k)" "nat (- (- int k)) = k" by simp_all
  then show ?thesis by (simp only: pow2_def if_False)
qed

text \<open>The binary exponent brackets the absolute value.\<close>

lemma binade_bounds:
  assumes "x \<noteq> 0"
  shows "pow2 (binade x) \<le> \<bar>x\<bar> \<and> \<bar>x\<bar> < pow2 (binade x + 1)"
proof (cases "\<bar>x\<bar> \<ge> 1")
  case True
  define n where "n = nat \<lfloor>\<bar>x\<bar>\<rfloor>"
  from True have n1: "0 < n" by (simp add: n_def)
  then obtain k where k: "bit_length n = Suc k"
    using bit_length_pos [of n] by (cases "bit_length n") simp_all
  from bit_length_bounds [OF n1] k have lo: "2 ^ k \<le> n" and hi: "n < 2 ^ Suc k"
    by simp_all
  have e: "binade x = int k"
    using True by (simp add: binade_def n_def [symmetric] k)
  have fl: "real n = of_int \<lfloor>\<bar>x\<bar>\<rfloor>"
    using True by (simp add: n_def)
  from lo have "(2::real) ^ k \<le> real n"
    by (metis of_nat_le_iff of_nat_numeral of_nat_power)
  also have "\<dots> \<le> \<bar>x\<bar>" by (simp add: fl)
  finally have l: "pow2 (binade x) \<le> \<bar>x\<bar>"
    by (simp add: e pow2_nat)
  from hi have "n + 1 \<le> 2 ^ Suc k" by simp
  then have "real (n + 1) \<le> 2 ^ Suc k"
    by (metis of_nat_le_iff of_nat_numeral of_nat_power)
  moreover have "\<bar>x\<bar> < real (n + 1)"
    using fl by simp linarith
  ultimately have "\<bar>x\<bar> < 2 ^ Suc k" by simp
  moreover have "pow2 (binade x + 1) = 2 ^ Suc k"
    using pow2_nat [of "Suc k"] by (simp add: e add.commute)
  ultimately show ?thesis using l by simp
next
  case False
  with assms have a: "0 < \<bar>x\<bar>" "\<bar>x\<bar> < 1" by simp_all
  then have inv: "1 < 1 / \<bar>x\<bar>" by simp
  define c where "c = \<lceil>1 / \<bar>x\<bar>\<rceil>"
  define n where "n = nat (c - 1)"
  from inv have c2: "2 \<le> c" unfolding c_def by (simp add: le_ceiling_iff)
  then have n1: "0 < n" by (simp add: n_def)
  then obtain k where k: "bit_length n = Suc k"
    using bit_length_pos [of n] by (cases "bit_length n") simp_all
  from bit_length_bounds [OF n1] k have lo: "2 ^ k \<le> n" and hi: "n < 2 ^ Suc k"
    by simp_all
  have e: "binade x = - int (Suc k)"
    using False by (simp add: binade_def c_def [symmetric] n_def [symmetric] k)
  have nc: "int n = c - 1" using c2 by (simp add: n_def)
  from hi have "int n + 1 \<le> 2 ^ Suc k"
    by (metis add.commute of_nat_Suc of_nat_le_iff of_nat_numeral of_nat_power Suc_leI)
  then have "c \<le> 2 ^ Suc k" by (simp add: nc)
  then have "real_of_int c \<le> 2 ^ Suc k"
    by (metis of_int_le_iff of_int_numeral of_int_power)
  moreover have "1 / \<bar>x\<bar> \<le> real_of_int c" by (simp add: c_def)
  ultimately have "1 / \<bar>x\<bar> \<le> 2 ^ Suc k" by simp
  with a(1) have "1 / 2 ^ Suc k \<le> \<bar>x\<bar>"
    by (simp add: field_simps)
  then have l: "pow2 (binade x) \<le> \<bar>x\<bar>"
    by (simp only: e pow2_neg)
  from lo have "(2::int) ^ k \<le> c - 1"
    by (metis nc of_nat_le_iff of_nat_numeral of_nat_power)
  then have "(2::real) ^ k \<le> real_of_int (c - 1)"
    by (metis of_int_le_iff of_int_numeral of_int_power)
  moreover have "real_of_int (c - 1) < 1 / \<bar>x\<bar>"
    unfolding c_def by linarith
  ultimately have "2 ^ k < 1 / \<bar>x\<bar>" by simp
  with a(1) have "\<bar>x\<bar> < 1 / 2 ^ k"
    by (simp add: field_simps)
  moreover have "pow2 (binade x + 1) = 1 / 2 ^ k"
    using pow2_neg [of k] by (simp add: e)
  ultimately show ?thesis using l by simp
qed

lemma round_half_even_error: "\<bar>of_int (round_half_even m) - m\<bar> \<le> 1 / 2"
proof -
  have "of_int \<lfloor>m\<rfloor> \<le> m" "m < of_int \<lfloor>m\<rfloor> + 1"
    by linarith+
  then show ?thesis
    unfolding round_half_even_def Let_def
    by (simp add: abs_if) linarith
qed

text \<open>A finite result of the rounding is a multiple of the spacing of the doubles
  around the argument and is no further from it than half that spacing.\<close>

lemma round_double_nearest:
  assumes "round_double x = Num y" and "x \<noteq> 0"
  shows "\<exists>k. y = of_int k * pow2 (max (binade x) (- 1022) - 52)
           \<and> \<bar>y - x\<bar> \<le> pow2 (max (binade x) (- 1022) - 52) / 2"
proof -
  define ulp where "ulp = pow2 (max (binade x) (- 1022) - 52)"
  have pos: "0 < ulp"
    by (simp add: ulp_def pow2_def)
  from assms have y: "y = of_int (round_half_even (x / ulp)) * ulp"
    by (simp add: round_double_def Let_def ulp_def split: if_splits)
  have "\<bar>of_int (round_half_even (x / ulp)) - x / ulp\<bar> * ulp \<le> 1 / 2 * ulp"
    using round_half_even_error [of "x / ulp"] pos by (intro mult_right_mono) simp_all
  moreover have "\<bar>of_int (round_half_even (x / ulp)) - x / ulp\<bar> * ulp = \<bar>y - x\<bar>"
  proof -
    have "\<bar>of_int (round_half_even (x / ulp)) - x / ulp\<bar> * ulp =
        \<bar>(of_int (round_half_even (x / ulp)) - x / ulp) * ulp\<bar>"
      using pos by (simp add: abs_mult)
    also have "(of_int (round_half_even (x / ulp)) - x / ulp) * ulp = y - x"
      using pos by (simp add: y left_diff_distrib)
    finally show ?thesis .
  qed
  ultimately have "\<bar>y - x\<bar> \<le> ulp / 2" by simp
  with y show ?thesis
    unfolding ulp_def by blast
qed












lemma fold_hours_NaN: "foldl num_add NaN hs = NaN"
  by (induction hs) simp_all

lemma num_add_NaN_right: "num_add h NaN = NaN"
  by (cases h) simp_all

lemma num_mul_NaN_right: "num_mul h NaN = NaN"
  by (cases h) simp_all

lemma fold_hours_unparsed:
  "p \<in> set ps \<Longrightarrow> hoursPerDay p = NaN \<Longrightarrow> foldl num_add h0 (map planHours ps) = NaN"
proof (induction ps arbitrary: h0)
  case Nil
  then show ?case by simp
next
  case (Cons q ps)
  show ?case
  proof (cases "q = p")
    case True
    with Cons.prems(2) have "num_add h0 (planHours q) = NaN"
      by (simp add: planHours_def num_mul_NaN_right num_add_NaN_right)
    then show ?thesis by (simp add: fold_hours_NaN)
  next
    case False
    with Cons show ?thesis by simp
  qed
qed

text \<open>When the token of some plan does not parse, \<open>totalHoursStudied\<close> is
  \<open>NaN\<close>.\<close>

lemma getStats_hours_unparsed:
  assumes "p \<in> set (getAllPlans st)" and "hoursPerDay p = NaN"
  shows "totalHoursStudied (getStats st) = NaN"
proof -
  from assms(1) have "getAllPlans st \<noteq> []" by auto
  then show ?thesis
    using fold_hours_unparsed [OF assms, of "Num 0"]
    by (simp add: getStats_def Let_def totalHours_fold)
qed

lemma hoursPerDay_words: "hoursPerDay (newPlan data_words (stamp_at 1000)) = NaN"
  by (simp add: hoursPerDay_def newPlan_def data_words_def parseInt_def isWhiteSpace_def
        radix_digit_def digit_value_def)

text \<open>With \<open>horasLiquidas = '4 horas'\<close> and 23 completed tasks the hours are
  \<open>Math.round(23 * (4 / 5) * 10) / 10\<close>, the double nearest to 18.4.\<close>

lemma hoursPerDay_plan_D: "hoursPerDay plan_D = Num 4"
  by (simp add: hoursPerDay_def plan_D_def newPlan_def data0_def form0_def parseInt_def
        isWhiteSpace_def radix_digit_def digit_value_def digits_value_def
        round_double_def binade_def bit_length_numeral pow2_def round_half_even_def)

lemma totalHoursStudied_store_D:
  "totalHoursStudied (getStats store_D) = Num (2589569785738035 / 140737488355328)"
proof -
  have h: "round_double (4 / 5) = Num (3602879701896397 / 4503599627370496)"
    by (simp add: round_double_def binade_def bit_length_numeral pow2_def round_half_even_def)
  have m: "round_double (23 * (3602879701896397 / 4503599627370496)) =
      Num (5179139571476071 / 281474976710656)"
    by (simp add: round_double_def binade_def bit_length_numeral pow2_def round_half_even_def)
  have t: "round_double (5179139571476071 / 281474976710656) =
      Num (5179139571476071 / 281474976710656)"
    by (simp add: round_double_def binade_def bit_length_numeral pow2_def round_half_even_def)
  have u: "round_double (5179139571476071 / 281474976710656 * 10) =
      Num (6473924464345089 / 35184372088832)"
    by (simp add: round_double_def binade_def bit_length_numeral pow2_def round_half_even_def)
  have v: "round_double (184 / 10) = Num (2589569785738035 / 140737488355328)"
    by (simp add: round_double_def binade_def bit_length_numeral pow2_def round_half_even_def)
  have ps: "getAllPlans store_D = [plan_D]"
    by (simp add: store_D_def getAllPlans_def)
  have "planHours plan_D = Num (5179139571476071 / 281474976710656)"
    using h m by (simp add: planHours_def hoursPerDay_plan_D) (simp add: plan_D_def newPlan_def)
  with t have "foldl num_add (Num 0) (map planHours (getAllPlans store_D)) =
      Num (5179139571476071 / 281474976710656)"
    by (simp add: ps)
  then have th: "totalHours (fold stats_step (getAllPlans store_D)
      \<lparr>allSubjects = [], totalProgress = Num 0, totalHours = Num 0\<rparr>) =
      Num (5179139571476071 / 281474976710656)"
    by (simp only: totalHours_fold stats_acc.simps)
  have ne: "getAllPlans store_D \<noteq> []"
    by (simp add: ps)
  show ?thesis
    using u v ne by (simp add: getStats_def Let_def th)
qed

text \<open>
  C2, at a failing input. The only stored plan has \<open>horasLiquidas = 'quatro
  horas'\<close> and no completed task. Its token \<open>quatro\<close> is not empty, so the
  default \<open>'0'\<close> is not taken, and \<open>parseInt\<close> gives \<open>NaN\<close>, not 0;
  \<open>totalHoursStudied\<close> is \<open>NaN\<close>, where the sum the claim describes is 0.
\<close>

theorem getStats_hours_NaN:
  "getAllPlans store_words = [newPlan data_words (stamp_at 1000)]
   \<and> horasLiquidas (formData (newPlan data_words (stamp_at 1000))) = ''quatro horas''
   \<and> hoursPerDay (newPlan data_words (stamp_at 1000)) = NaN
   \<and> totalHoursStudied (getStats store_words) = NaN
   \<and> spec_totalHoursStudied (getAllPlans store_words) = 0"
proof -
  have ps: "getAllPlans store_words = [newPlan data_words (stamp_at 1000)]"
    by (simp add: store_words_def savePlan_def Let_def getAllPlans_logActivity getAllPlans_setPlans
          fresh_store_def)
       (simp add: getAllPlans_def)
  have "totalHoursStudied (getStats store_words) = NaN"
    by (rule getStats_hours_unparsed [of "newPlan data_words (stamp_at 1000)"])
       (simp_all add: ps hoursPerDay_words)
  moreover have "spec_totalHoursStudied (getAllPlans store_words) = 0"
    by (simp add: ps spec_totalHoursStudied_def newPlan_def data_words_def data0_def)
  moreover have "horasLiquidas (formData (newPlan data_words (stamp_at 1000))) = ''quatro horas''"
    by (simp add: newPlan_def data_words_def)
  ultimately show ?thesis
    using ps hoursPerDay_words by simp
qed

subsection \<open>Plan ids\<close>

lemma digit_value_digit_char: "d < 10 \<Longrightarrow> digit_value (digit_char d) = Some d"
  by (simp add: digit_value_def digit_char_def)

lemma digits_value_snoc:
  "digits_value radix (z @ [c]) =
     digits_value radix z * radix + (case digit_value c of Some d \<Rightarrow> d | None \<Rightarrow> 0)"
  by (simp add: digits_value_def)

text \<open>Reading the digits of a number gives the number back.\<close>

lemma digits_value_decimal: "digits_value 10 (decimal n) = n"
proof (induction n rule: decimal.induct)
  case (1 n)
  show ?case
  proof (cases "n < 10")
    case True
    then have "decimal n = [digit_char n]"
      by (subst decimal.simps) simp
    with True show ?thesis
      by (simp add: digits_value_def digit_value_digit_char)
  next
    case False
    then have "decimal n = decimal (n div 10) @ [digit_char (n mod 10)]"
      by (subst decimal.simps) simp
    with 1 False show ?thesis
      by (simp add: digits_value_snoc digit_value_digit_char)
  qed
qed

lemma decimal_inj: "decimal m = decimal n \<Longrightarrow> m = n"
  by (metis digits_value_decimal)

lemma digit_char_not_underscore: "d < 10 \<Longrightarrow> digit_char d \<noteq> CHR ''_''"
proof
  assume "d < 10" and "digit_char d = CHR ''_''"
  then have "digit_value (CHR ''_'') = Some d"
    using digit_value_digit_char by metis
  then show False
    by (simp add: digit_value_def)
qed

lemma decimal_no_underscore: "CHR ''_'' \<notin> set (decimal n)"
proof (induction n rule: decimal.induct)
  case (1 n)
  show ?case
  proof (cases "n < 10")
    case True
    then have "decimal n = [digit_char n]"
      by (subst decimal.simps) simp
    with True show ?thesis
      using digit_char_not_underscore [of n] by auto
  next
    case False
    then have "decimal n = decimal (n div 10) @ [digit_char (n mod 10)]"
      by (subst decimal.simps) simp
    with 1 False show ?thesis
      using digit_char_not_underscore [of "n mod 10"] by auto
  qed
qed

text \<open>The id determines the two readings it was built from.\<close>

lemma new_plan_id_inj:
  assumes "new_plan_id s = new_plan_id s'"
  shows "date_now s = date_now s' \<and> random_suffix s = random_suffix s'"
proof -
  from assms have "decimal (date_now s) @ CHR ''_'' # random_suffix s =
      decimal (date_now s') @ CHR ''_'' # random_suffix s'"
    by (simp add: new_plan_id_def)
  then have "decimal (date_now s) = decimal (date_now s') \<and> random_suffix s = random_suffix s'"
    by (rule split_at_first) (rule decimal_no_underscore)+
  then show ?thesis
    by (simp add: decimal_inj)
qed

lemma exec_save_call:
  "fst (exec (save_call a) st) = PlanId (new_plan_id (plan_stamp a))
   \<and> getAllPlans (snd (exec (save_call a) st)) = getAllPlans st @ [newPlan (data a) (plan_stamp a)]"
  using getAllPlans_savePlan [of "data a" "plan_stamp a" "log_stamp a" "remote a" st]
    getAllPlans_savePlanSync [of "data a" "plan_stamp a" "log_stamp a" "remote a" st]
    fst_savePlan [of "data a" "plan_stamp a" "log_stamp a" "remote a" st]
    fst_savePlanSync [of "data a" "plan_stamp a" "log_stamp a" "remote a" st]
  by (simp add: save_call_def split_beta)

lemma run_saves:
  "fst (run (map save_call as) st) = map (\<lambda>a. PlanId (new_plan_id (plan_stamp a))) as
   \<and> getAllPlans (snd (run (map save_call as) st)) =
       getAllPlans st @ map (\<lambda>a. newPlan (data a) (plan_stamp a)) as"
proof (induction as arbitrary: st)
  case Nil
  show ?case by simp
next
  case (Cons a as)
  from Cons.IH [of "snd (exec (save_call a) st)"] exec_save_call [of a st]
  show ?case
    by (simp add: split_beta)
qed

lemma distinct_new_ids:
  assumes "distinct (map id_readings as)"
  shows "distinct (map (\<lambda>a. new_plan_id (plan_stamp a)) as)"
proof -
  have "inj_on (\<lambda>a. new_plan_id (plan_stamp a)) (set as)"
  proof (rule inj_onI)
    fix a b
    assume ab: "a \<in> set as" "b \<in> set as" "new_plan_id (plan_stamp a) = new_plan_id (plan_stamp b)"
    then have "id_readings a = id_readings b"
      using new_plan_id_inj [of "plan_stamp a" "plan_stamp b"] by (simp add: id_readings_def)
    with assms ab(1,2) show "a = b"
      by (meson distinct_map inj_onD)
  qed
  moreover from assms have "distinct as"
    by (simp add: distinct_map)
  ultimately show ?thesis
    by (simp add: distinct_map)
qed

text \<open>
  C4 as amended. Take any sequence of \<open>savePlan\<close> and \<open>savePlanSync\<close> calls in a
  fresh browser in which no two calls read both the same \<open>Date.now()\<close> and the
  same random suffix. After every prefix of the sequence the ids returned so far are
  the ids of the stored plans, in order, and they are pairwise distinct. And any two
  such calls, in any two stores, return the same id exactly when they read the same
  \<open>Date.now()\<close> and the same random suffix.
\<close>

theorem savePlan_ids_distinct:
  assumes "distinct (map id_readings as)"
  shows "(\<forall>n. fst (run (map save_call (take n as)) fresh_store) =
              map (\<lambda>p. PlanId (plan_id p)) (getAllPlans (snd (run (map save_call (take n as)) fresh_store)))
            \<and> distinct (map plan_id (getAllPlans (snd (run (map save_call (take n as)) fresh_store)))))
       \<and> (\<forall>a b st st'.
            (fst (exec (save_call a) st) = fst (exec (save_call b) st')) =
            (id_readings a = id_readings b))"
proof (intro conjI allI)
  fix n
  have fresh: "getAllPlans fresh_store = []"
    by (simp add: getAllPlans_def fresh_store_def)
  from assms have "distinct (map id_readings (take n as))"
    by (simp add: distinct_take take_map [symmetric])
  then have "distinct (map (\<lambda>a. new_plan_id (plan_stamp a)) (take n as))"
    by (rule distinct_new_ids)
  with run_saves [of "take n as" fresh_store] fresh
  show "fst (run (map save_call (take n as)) fresh_store) =
              map (\<lambda>p. PlanId (plan_id p)) (getAllPlans (snd (run (map save_call (take n as)) fresh_store)))"
    and "distinct (map plan_id (getAllPlans (snd (run (map save_call (take n as)) fresh_store))))"
    by (simp_all add: plan_id_newPlan o_def)
next
  fix a b st st'
  have "new_plan_id (plan_stamp a) = new_plan_id (plan_stamp b) \<longleftrightarrow> id_readings a = id_readings b"
    using new_plan_id_inj [of "plan_stamp a" "plan_stamp b"]
    by (auto simp: id_readings_def new_plan_id_def)
  then show "(fst (exec (save_call a) st) = fst (exec (save_call b) st')) =
            (id_readings a = id_readings b)"
    by (simp add: exec_save_call)
qed

theorem savePlan_ids_distinct_witness:
  "distinct (map id_readings two_saves)
   \<and> fst (run (map save_call two_saves) fresh_store) =
       [PlanId ''plan_1000_k3x9q2m1z'', PlanId ''plan_1001_k3x9q2m1z'']
   \<and> distinct (map plan_id (getAllPlans (snd (run (map save_call two_saves) fresh_store))))
   \<and> id_readings (hd twin_saves) = id_readings (last twin_saves)
   \<and> fst (exec (save_call (hd twin_saves)) fresh_store) =
       fst (exec (save_call (last twin_saves)) store_saved)
   \<and> id_readings (hd two_saves) \<noteq> id_readings (last two_saves)
   \<and> fst (exec (save_call (hd two_saves)) fresh_store) \<noteq>
       fst (exec (save_call (last two_saves)) store_saved)"
proof -
  have d: "distinct (map id_readings two_saves)"
    by (simp add: two_saves_def id_readings_def stamp_at_def)
  note t = savePlan_ids_distinct [OF d]
  have "new_plan_id (stamp_at 1001) = ''plan_1001_k3x9q2m1z''"
    by code_simp
  moreover have "fst (run (map save_call two_saves) fresh_store) =
      map (\<lambda>a. PlanId (new_plan_id (plan_stamp a))) two_saves"
    by (simp only: run_saves)
  ultimately have r: "fst (run (map save_call two_saves) fresh_store) =
       [PlanId ''plan_1000_k3x9q2m1z'', PlanId ''plan_1001_k3x9q2m1z'']"
    by (simp add: two_saves_def new_plan_id_1000)
  have "take 2 two_saves = two_saves"
    by (simp add: two_saves_def)
  with t [THEN conjunct1, rule_format, of 2]
  have dist: "distinct (map plan_id (getAllPlans (snd (run (map save_call two_saves) fresh_store))))"
    by simp
  have same: "id_readings (hd twin_saves) = id_readings (last twin_saves)"
    by (simp add: twin_saves_def id_readings_def)
  with t [THEN conjunct2, rule_format, of "hd twin_saves" fresh_store "last twin_saves" store_saved]
  have same_id: "fst (exec (save_call (hd twin_saves)) fresh_store) =
       fst (exec (save_call (last twin_saves)) store_saved)"
    by simp
  have other: "id_readings (hd two_saves) \<noteq> id_readings (last two_saves)"
    by (simp add: two_saves_def id_readings_def stamp_at_def)
  with t [THEN conjunct2, rule_format, of "hd two_saves" fresh_store "last two_saves" store_saved]
  have other_id: "fst (exec (save_call (hd two_saves)) fresh_store) \<noteq>
       fst (exec (save_call (last two_saves)) store_saved)"
    by simp
  from d r dist same same_id other other_id show ?thesis
    by simp
qed

text \<open>
  C4 as stated fails. A \<open>savePlan\<close> and a \<open>savePlanSync\<close> call that read the
  same \<open>Date.now()\<close> and draw the same suffix return the same id, and the store
  then holds two plans with that id.
\<close>

theorem savePlan_same_id_counterexample:
  "fst (run (map save_call twin_saves) fresh_store) =
     [PlanId ''plan_1000_k3x9q2m1z'', PlanId ''plan_1000_k3x9q2m1z'']
   \<and> map plan_id (getAllPlans (snd (run (map save_call twin_saves) fresh_store))) =
     [''plan_1000_k3x9q2m1z'', ''plan_1000_k3x9q2m1z'']
   \<and> \<not> distinct (map plan_id (getAllPlans (snd (run (map save_call twin_saves) fresh_store))))"
proof -
  have "getAllPlans fresh_store = []"
    by (simp add: getAllPlans_def fresh_store_def)
  with run_saves [of twin_saves fresh_store]
  have "fst (run (map save_call twin_saves) fresh_store) =
      map (\<lambda>a. PlanId (new_plan_id (plan_stamp a))) twin_saves"
    and "getAllPlans (snd (run (map save_call twin_saves) fresh_store)) =
      map (\<lambda>a. newPlan (data a) (plan_stamp a)) twin_saves"
    by simp_all
  then show ?thesis
    by (simp add: twin_saves_def new_plan_id_1000 plan_id_newPlan)
qed

subsection \<open>Timestamps\<close>

lemma stamps_ordered_mono: "stamps_ordered t st \<Longrightarrow> t \<le> t' \<Longrightarrow> stamps_ordered t' st"
  by (auto simp: stamps_ordered_def list_all_iff)

lemma stamps_ordered_update:
  assumes "stamps_ordered t st" and "t \<le> now" and "upd_createdAt u = None"
  shows "list_all (\<lambda>p. createdAt p \<le> updatedAt p \<and> updatedAt p \<le> now)
           (case findIndex (\<lambda>plan. plan_id plan = i) (getAllPlans st) of
              None \<Rightarrow> getAllPlans st
            | Some k \<Rightarrow> (getAllPlans st)[k := mergeUpdates (getAllPlans st ! k) u now])"
proof (cases "findIndex (\<lambda>plan. plan_id plan = i) (getAllPlans st)")
  case None
  with assms(1,2) show ?thesis
    by (auto simp: stamps_ordered_def list_all_iff)
next
  case (Some k)
  then have k: "k < length (getAllPlans st)"
    by (simp add: findIndex_Some)
  then have "getAllPlans st ! k \<in> set (getAllPlans st)"
    by simp
  with assms have "createdAt (mergeUpdates (getAllPlans st ! k) u now) \<le> now"
    by (auto simp: stamps_ordered_def list_all_iff mergeUpdates_def override_def)
  moreover have "updatedAt (mergeUpdates (getAllPlans st ! k) u now) = now"
    by (simp add: mergeUpdates_def)
  ultimately show ?thesis
    using assms(1,2) Some
    by (auto simp: stamps_ordered_def list_all_iff dest!: set_update_subset_insert [THEN subsetD])
qed

text \<open>One call keeps the order of the timestamps, when its reading is not before
  the bound.\<close>

lemma stamps_ordered_exec:
  assumes "stamps_ordered t st" and "sorted (t # call_times c)" and "keeps_createdAt c"
  shows "stamps_ordered (last (t # call_times c)) (snd (exec c st))"
proof (cases c)
  case (SavePlan d s a r)
  with assms show ?thesis
    by (auto simp: split_beta stamps_ordered_def getAllPlans_savePlan list_all_iff newPlan_def)
next
  case (SavePlanSync d s a r)
  with assms show ?thesis
    by (auto simp: split_beta stamps_ordered_def getAllPlans_savePlanSync list_all_iff newPlan_def)
next
  case (UpdatePlan i u now s1 s2 r)
  with assms stamps_ordered_update [of t st now u i] show ?thesis
    by (simp add: split_beta stamps_ordered_def getAllPlans_updatePlan)
next
  case (UpdatePlanSync i u now s1 s2 r)
  with assms stamps_ordered_update [of t st now u i] show ?thesis
    by (simp add: split_beta stamps_ordered_def getAllPlans_updatePlanSync)
next
  case (UpdateCompletedTasks i ts now s1 s2 r)
  show ?thesis
  proof (cases "i = []")
    case True
    with UpdateCompletedTasks assms stamps_ordered_mono [of t st now] show ?thesis
      by (simp add: split_beta stamps_ordered_def getAllPlans_updateCompletedTasks)
  next
    case False
    have "upd_createdAt (onlyCompletedTasks ts) = None"
      by (simp add: onlyCompletedTasks_def)
    with False UpdateCompletedTasks assms stamps_ordered_update [of t st now "onlyCompletedTasks ts" i]
    show ?thesis
      by (simp add: split_beta stamps_ordered_def getAllPlans_updateCompletedTasks
            getAllPlans_updatePlanSync)
  qed
next
  case (DeletePlan i r)
  with assms set_deletePlan [of i r st] show ?thesis
    by (auto simp: split_beta stamps_ordered_def list_all_iff)
qed

lemma stamps_ordered_run:
  assumes "stamps_ordered t st" and "sorted (t # concat (map call_times cs))"
    and "\<forall>c\<in>set cs. keeps_createdAt c"
  shows "\<exists>t'. stamps_ordered t' (snd (run cs st))"
  using assms
proof (induction cs arbitrary: t st)
  case Nil
  then show ?case by auto
next
  case (Cons c cs)
  let ?t = "last (t # call_times c)"
  from Cons.prems(2) have s1: "sorted (t # call_times c)"
    by (auto simp: sorted_append)
  from Cons.prems(2) have s2: "sorted (?t # concat (map call_times cs))"
    by (cases "call_times c" rule: rev_cases) (auto simp: sorted_append)
  have k: "keeps_createdAt c"
    using Cons.prems(3) by simp
  have "stamps_ordered ?t (snd (exec c st))"
    using Cons.prems(1) s1 k by (rule stamps_ordered_exec)
  from Cons.IH [OF this s2] Cons.prems(3) show ?case
    by (simp add: split_beta)
qed

lemma stamps_ordered_fresh: "stamps_ordered 0 fresh_store"
  by (simp add: stamps_ordered_def getAllPlans_def fresh_store_def)

lemma updatedAt_after_update:
  assumes "findIndex (\<lambda>plan. plan_id plan = i) (getAllPlans st) = Some k"
  shows "updatedAt ((getAllPlans st)[k := mergeUpdates (getAllPlans st ! k) u now] ! k) = now"
  using findIndex_Some [OF assms] by (simp add: mergeUpdates_def)

lemma snd_run_Cons: "snd (run (c # cs) st) = snd (run cs (snd (exec c st)))"
  by (simp add: split_beta)

text \<open>
  C3 as amended. Take any sequence of \<open>savePlan\<close>, \<open>savePlanSync\<close>,
  \<open>updatePlan\<close>, \<open>updatePlanSync\<close>, \<open>updateCompletedTasks\<close> and
  \<open>deletePlan\<close> calls in a fresh browser whose clock readings do not decrease
  and whose updates do not carry \<open>createdAt\<close>. Then every stored plan has
  \<open>createdAt \<le> updatedAt\<close>. In any store, an update that finds its plan leaves
  it with \<open>updatedAt\<close> equal to the reading of the call (for
  \<open>updateCompletedTasks\<close>, when the id is not empty), and a save leaves the new
  plan with \<open>updatedAt\<close> equal to the reading of the call.
\<close>

theorem timestamps_ordered:
  assumes "sorted (concat (map call_times cs))" and "\<forall>c\<in>set cs. keeps_createdAt c"
  shows "(\<forall>p\<in>set (getAllPlans (snd (run cs fresh_store))). createdAt p \<le> updatedAt p)
     \<and> (\<forall>k. findIndex (\<lambda>plan. plan_id plan = i) (getAllPlans st) = Some k \<longrightarrow>
            updatedAt (getAllPlans (snd (updatePlan i u now s1 s2 r st)) ! k) = now
          \<and> updatedAt (getAllPlans (snd (updatePlanSync i u now s1 s2 r st)) ! k) = now
          \<and> (i \<noteq> [] \<longrightarrow>
               updatedAt (getAllPlans (snd (updateCompletedTasks i ts now s1 s2 r st)) ! k) = now))
     \<and> updatedAt (last (getAllPlans (snd (savePlan d s a r st)))) = new_date s
     \<and> updatedAt (last (getAllPlans (snd (savePlanSync d s a r st)))) = new_date s"
proof -
  from assms(1) have "sorted (0 # concat (map call_times cs))"
    by simp
  with stamps_ordered_fresh obtain t where "stamps_ordered t (snd (run cs fresh_store))"
    using assms(2) stamps_ordered_run by blast
  then have inv: "\<forall>p\<in>set (getAllPlans (snd (run cs fresh_store))). createdAt p \<le> updatedAt p"
    by (simp add: stamps_ordered_def list_all_iff)
  have upd: "updatedAt (getAllPlans (snd (updatePlan i u now s1 s2 r st)) ! k) = now
          \<and> updatedAt (getAllPlans (snd (updatePlanSync i u now s1 s2 r st)) ! k) = now
          \<and> (i \<noteq> [] \<longrightarrow>
               updatedAt (getAllPlans (snd (updateCompletedTasks i ts now s1 s2 r st)) ! k) = now)"
    if "findIndex (\<lambda>plan. plan_id plan = i) (getAllPlans st) = Some k" for k
    using that updatedAt_after_update [OF that, of u now]
      updatedAt_after_update [OF that, of "onlyCompletedTasks ts" now]
    by (simp add: getAllPlans_updatePlan getAllPlans_updatePlanSync getAllPlans_updateCompletedTasks)
  have "updatedAt (last (getAllPlans (snd (savePlan d s a r st)))) = new_date s"
    "updatedAt (last (getAllPlans (snd (savePlanSync d s a r st)))) = new_date s"
    by (simp_all add: getAllPlans_savePlan getAllPlans_savePlanSync newPlan_def)
  with inv upd show ?thesis
    by blast
qed

lemma usual_calls_plans:
  "map (\<lambda>p. (createdAt p, updatedAt p)) (getAllPlans (snd (run usual_calls fresh_store))) =
     [(1000, 2000)]"
proof -
  have t: "trim ''plan_7'' = ''plan_7''"
    by (simp add: trim_def isWhiteSpace_def)
  show ?thesis
    unfolding usual_calls_def snd_run_Cons
    by (simp add: split_beta getAllPlans_deletePlan getAllPlans_updateCompletedTasks
          getAllPlans_updatePlanSync getAllPlans_savePlan getAllPlans_fresh_store t
          plan_id_newPlan new_plan_id_1000)
       (simp add: mergeUpdates_def newPlan_def override_def onlyCompletedTasks_def new_plan_id_1000
          new_date_stamp_at)
qed

theorem timestamps_ordered_witness:
  "sorted (concat (map call_times usual_calls))
   \<and> list_all keeps_createdAt usual_calls
   \<and> map (\<lambda>p. (createdAt p, updatedAt p)) (getAllPlans (snd (run usual_calls fresh_store))) =
       [(1000, 2000)]
   \<and> list_all (\<lambda>p. createdAt p \<le> updatedAt p) (getAllPlans (snd (run usual_calls fresh_store)))"
proof -
  have s: "sorted (concat (map call_times usual_calls))"
    by (simp add: usual_calls_def stamp_at_def)
  have k: "\<forall>c\<in>set usual_calls. keeps_createdAt c"
    by (simp add: usual_calls_def)
  from timestamps_ordered [OF s k]
  have "\<forall>p\<in>set (getAllPlans (snd (run usual_calls fresh_store))). createdAt p \<le> updatedAt p"
    by blast
  with s k usual_calls_plans show ?thesis
    by (simp add: list_all_iff)
qed

text \<open>
  C3 as stated fails. \<open>savePlan\<close> at time 1000 and then \<open>updatePlan(id, {
  createdAt: 5000 })\<close> at time 2000 leave the plan with \<open>createdAt = 5000\<close> and
  \<open>updatedAt = 2000\<close>: the spread takes \<open>createdAt\<close> from the updates.
\<close>

theorem backdated_createdAt_counterexample:
  "sorted (concat (map call_times backdating_calls))
   \<and> fst (run backdating_calls fresh_store) = [PlanId ''plan_1000_k3x9q2m1z'', Success True]
   \<and> map (\<lambda>p. (createdAt p, updatedAt p)) (getAllPlans (snd (run backdating_calls fresh_store))) =
       [(5000, 2000)]
   \<and> \<not> list_all (\<lambda>p. createdAt p \<le> updatedAt p) (getAllPlans (snd (run backdating_calls fresh_store)))"
proof -
  have s: "sorted (concat (map call_times backdating_calls))"
    by (simp add: backdating_calls_def stamp_at_def)
  have ps: "map (\<lambda>p. (createdAt p, updatedAt p)) (getAllPlans (snd (run backdating_calls fresh_store))) =
       [(5000, 2000)]"
    unfolding backdating_calls_def snd_run_Cons
    by (simp add: split_beta getAllPlans_updatePlan getAllPlans_savePlan getAllPlans_fresh_store
          plan_id_newPlan)
       (simp add: mergeUpdates_def no_updates_def override_def new_date_stamp_at)
  have found: "findIndex (\<lambda>plan. plan_id plan = new_plan_id (stamp_at 1000))
      (getAllPlans (snd (savePlan data0 (stamp_at 1000) (stamp_at 1000) (Resolves ()) fresh_store))) = Some 0"
    by (simp add: getAllPlans_savePlan getAllPlans_fresh_store plan_id_newPlan)
  have r: "fst (run backdating_calls fresh_store) = [PlanId ''plan_1000_k3x9q2m1z'', Success True]"
    using found
    by (simp add: backdating_calls_def split_beta fst_savePlan new_plan_id_1000 updatePlan_def Let_def)
  from ps have "\<not> list_all (\<lambda>p. createdAt p \<le> updatedAt p) (getAllPlans (snd (run backdating_calls fresh_store)))"
    by (cases "getAllPlans (snd (run backdating_calls fresh_store))") auto
  with s ps r show ?thesis by simp
qed

end
